theory Spec2Isabelle
  imports Complex_Main "HOL-Library.Sublist" "HOL-Library.Char_ord" "HOL-Library.AList"
begin

section \<open>Python values used by both scripts\<close>

text \<open>
  A Python \<open>str\<close> is modelled as a \<open>string\<close> whose characters stand for the code
  points below 256. Exceptions are values: a function that can raise returns
  \<open>py_error + 'a\<close>, with \<open>Inl\<close> for the exception.
\<close>

datatype py_error =
    ValueError
  | OverflowError
  | RuntimeError string
  | FileNotFoundError string

subsection \<open>Truthiness, membership, case\<close>

text \<open>\<open>not s\<close> for an optional string (an absent argparse option is \<open>None\<close>).\<close>

definition truthy :: "string option \<Rightarrow> bool" where
  "truthy v = (case v of None \<Rightarrow> False | Some s \<Rightarrow> s \<noteq> [])"

text \<open>\<open>needle in hay\<close> on strings: a scan for the needle at every position.\<close>

fun py_in :: "string \<Rightarrow> string \<Rightarrow> bool" where
  "py_in needle [] = (needle = [])"
| "py_in needle (c # cs) = (prefix needle (c # cs) \<or> py_in needle cs)"

text \<open>
  \<open>str.lower()\<close> below code point 256: the letters A-Z and the upper-case letters of
  the Latin-1 block (0xC0-0xDE without the multiplication sign 0xD7) move up by 32.
\<close>

definition py_lower_chr :: "char \<Rightarrow> char" where
  "py_lower_chr c =
     (let n = of_char c :: nat
      in if (65 \<le> n \<and> n \<le> 90) \<or> (192 \<le> n \<and> n \<le> 222 \<and> n \<noteq> 215)
         then char_of (n + 32) else c)"

definition py_lower :: "string \<Rightarrow> string" where
  "py_lower s = map py_lower_chr s"

subsection \<open>Digits, \<open>str(int)\<close>, \<open>int(str)\<close> and the format specification \<open>0Nd\<close>\<close>

definition is_decimal :: "char \<Rightarrow> bool" where
  "is_decimal c = (c \<in> set ''0123456789'')"

text \<open>
  \<open>str.isdigit()\<close>: every character is a digit and there is at least one. Below
  code point 256 the digits are 0-9 and the superscripts two, three and one
  (0xB2, 0xB3, 0xB9), which \<open>int()\<close> does not accept.
\<close>

definition isdigit_chr :: "char \<Rightarrow> bool" where
  "isdigit_chr c = (is_decimal c \<or> c = CHR 0xB2 \<or> c = CHR 0xB3 \<or> c = CHR 0xB9)"

definition py_isdigit :: "string \<Rightarrow> bool" where
  "py_isdigit s = (s \<noteq> [] \<and> list_all isdigit_chr s)"

definition digit_chr :: "nat \<Rightarrow> char" where
  "digit_chr d = ''0123456789'' ! d"

definition digit_val :: "char \<Rightarrow> nat" where
  "digit_val c = of_char c - 48"

function str_nat :: "nat \<Rightarrow> string" where
  "str_nat n = (if n < 10 then [digit_chr n] else str_nat (n div 10) @ [digit_chr (n mod 10)])"
  by pat_completeness auto
termination
  by (relation "measure id") auto

declare str_nat.simps [simp del]

definition str_int :: "int \<Rightarrow> string" where
  "str_int i = (if i < 0 then CHR ''-'' # str_nat (nat (- i)) else str_nat (nat i))"

text \<open>\<open>str(x)\<close> for \<open>x: int | None\<close>, as an f-string prints it.\<close>

definition str_int_opt :: "int option \<Rightarrow> string" where
  "str_int_opt v = (case v of None \<Rightarrow> ''None'' | Some i \<Rightarrow> str_int i)"

definition zfill :: "nat \<Rightarrow> string \<Rightarrow> string" where
  "zfill w s = replicate (w - length s) (CHR ''0'') @ s"

text \<open>
  \<open>f"{i:0wd}"\<close>: the decimal digits padded with zeros to width \<open>w\<close>; the sign of a
  negative number counts towards the width and stands before the zeros.
\<close>

definition format_0d :: "nat \<Rightarrow> int \<Rightarrow> string" where
  "format_0d w i =
     (if i < 0 then CHR ''-'' # zfill (w - 1) (str_nat (nat (- i)))
      else zfill w (str_nat (nat i)))"

definition nat_of_digits :: "string \<Rightarrow> nat" where
  "nat_of_digits ds = foldl (\<lambda>a c. 10 * a + digit_val c) 0 ds"

text \<open>
  \<open>int(s)\<close> for a string of decimal digits with an optional sign; anything else is a
  \<open>ValueError\<close>. (Python also accepts surrounding blanks and underscores between
  digits; no string of that shape reaches \<open>int\<close> in these scripts, where it is only
  called under \<open>isdigit()\<close>.) Python's integers are unbounded. Recent interpreters
  refuse to convert between \<open>str\<close> and \<open>int\<close> beyond a configurable number of digits
  (\<open>sys.set_int_max_str_digits\<close>, 4300 unless set otherwise, 0 for no limit); \<open>str_int\<close>,
  \<open>format_0d\<close> and \<open>py_int\<close> are the conversions without that limit.
\<close>

definition unsigned_int :: "string \<Rightarrow> py_error + int" where
  "unsigned_int ds =
     (if ds \<noteq> [] \<and> list_all is_decimal ds then Inr (int (nat_of_digits ds))
      else Inl ValueError)"

definition py_int :: "string \<Rightarrow> py_error + int" where
  "py_int s =
     (case s of
        [] \<Rightarrow> Inl ValueError
      | c # ds \<Rightarrow>
          if c = CHR ''-'' then map_sum id uminus (unsigned_int ds)
          else if c = CHR ''+'' then unsigned_int ds
          else unsigned_int s)"

subsection \<open>\<open>str.split(sep)\<close> and \<open>str.strip()\<close>\<close>

text \<open>\<open>s.split(sep)\<close> for a one-character separator: always at least one piece.\<close>

fun py_split :: "char \<Rightarrow> string \<Rightarrow> string list" where
  "py_split sep [] = [[]]"
| "py_split sep (c # cs) =
     (if c = sep then [] # py_split sep cs
      else (case py_split sep cs of
              [] \<Rightarrow> [[c]]
            | p # ps \<Rightarrow> (c # p) # ps))"

text \<open>\<open>s.split(sep, 1)\<close>: cut at the first separator only.\<close>

definition py_split1 :: "char \<Rightarrow> string \<Rightarrow> string list" where
  "py_split1 sep s =
     (if sep \<in> set s then [takeWhile (\<lambda>c. c \<noteq> sep) s, tl (dropWhile (\<lambda>c. c \<noteq> sep) s)]
      else [s])"

text \<open>
  \<open>str.isspace()\<close> on one character below code point 256: tab to carriage return,
  the four separators 0x1C-0x1F, the blank, NEL (0x85) and the no-break space (0xA0).
\<close>

definition py_isspace :: "char \<Rightarrow> bool" where
  "py_isspace c =
     (let n = of_char c :: nat
      in (9 \<le> n \<and> n \<le> 13) \<or> (28 \<le> n \<and> n \<le> 32) \<or> n = 133 \<or> n = 160)"

definition py_strip :: "string \<Rightarrow> string" where
  "py_strip s = rev (dropWhile py_isspace (rev (dropWhile py_isspace s)))"

subsection \<open>\<open>time.sleep\<close>\<close>

text \<open>
  \<open>time.sleep(secs)\<close> first turns the length into a number of nanoseconds held in a
  signed 64-bit integer, and raises \<open>OverflowError\<close> when it does not fit; then it
  raises \<open>ValueError\<close> when the length is negative; otherwise it sleeps and returns.
  The length is an \<open>int\<close> in one script and a \<open>float\<close> in the other; here it is a
  fraction, and the number of nanoseconds is the exact product, where Python rounds
  that of a \<open>float\<close> to a whole number.
\<close>

definition time_sleep :: "rat \<Rightarrow> py_error option" where
  "time_sleep secs =
     (if secs * 10 ^ 9 < - (2 ^ 63) \<or> 2 ^ 63 - 1 < secs * 10 ^ 9 then Some OverflowError
      else if secs < 0 then Some ValueError
      else None)"

section \<open>dw-batch-export.py\<close>

subsection \<open>\<open>month_range\<close>\<close>

text \<open>
  The generator, as the list of the pairs it yields. Python compares the tuples
  \<open>(y, m) <= (end_year, end_month)\<close> lexicographically.
\<close>

function month_range :: "int \<Rightarrow> int \<Rightarrow> int \<Rightarrow> int \<Rightarrow> (int \<times> int) list" where
  "month_range y m end_year end_month =
     (if y < end_year \<or> (y = end_year \<and> m \<le> end_month)
      then (y, m) #
           (if m + 1 > 12 then month_range (y + 1) 1 end_year end_month
            else month_range y (m + 1) end_year end_month)
      else [])"
  by pat_completeness auto
termination
  by (relation "measures [\<lambda>(y, m, ey, em). nat (ey + 1 - y), \<lambda>(y, m, ey, em). nat (13 - m)]") auto

declare month_range.simps [simp del]

subsection \<open>The world the batch runs in\<close>

text \<open>
  \<open>datetime.utcnow()\<close> returns a naive datetime; \<open>isoformat(timespec="seconds")\<close> prints
  it as \<open>YYYY-MM-DDTHH:MM:SS\<close>.
\<close>

record datetime =
  dt_year :: nat
  dt_month :: nat
  dt_day :: nat
  dt_hour :: nat
  dt_minute :: nat
  dt_second :: nat

definition isoformat_seconds :: "datetime \<Rightarrow> string" where
  "isoformat_seconds d =
     format_0d 4 (int (dt_year d)) @ ''-'' @ format_0d 2 (int (dt_month d)) @ ''-'' @
     format_0d 2 (int (dt_day d)) @ ''T'' @ format_0d 2 (int (dt_hour d)) @ '':'' @
     format_0d 2 (int (dt_minute d)) @ '':'' @ format_0d 2 (int (dt_second d))"

text \<open>The file system: the paths that exist, each with its text.\<close>

type_synonym files = "string \<rightharpoonup> string"

text \<open>What \<open>subprocess.run(cmd, capture_output=True, text=True)\<close> returns.\<close>

record completed_process =
  returncode :: int
  stdout :: string
  stderr :: string

text \<open>
  What the script does not decide: the interpreter's path, what the child process does
  to the file system and returns, the random source (\<open>entropy env k\<close> feeds the
  \<open>k\<close>-th draw) and the clock (\<open>utcnow env k\<close> is the \<open>k\<close>-th reading).
\<close>

record batch_env =
  executable :: string
  run :: "string list \<Rightarrow> files \<Rightarrow> completed_process \<times> files"
  entropy :: "nat \<Rightarrow> int"
  utcnow :: "nat \<Rightarrow> datetime"

text \<open>The parsed command line (\<open>args\<close>), after \<open>configure_logging\<close> has accepted the level.\<close>

record batch_args =
  start_year :: int
  start_month :: int
  end_year :: int
  end_month :: int
  cookie_file :: string
  journal :: string
  outdir :: string
  normal_pause_min :: int
  normal_pause_max :: int
  grumpy_pause_min :: int
  grumpy_pause_max :: int
  failure_log :: string

text \<open>
  One constructor for each \<open>LOG\<close> call of the script, with the call's arguments.
\<close>

datatype log_record =
    LogSkipping int int
  | LogExporting int int
  | LogSuccess int int
  | LogFailure int int int
  | LogStdout string
  | LogStderr string
  | LogPausing int string
  | LogTooManyFailures
  | LogBatchComplete
  | LogFailureLogWritten string

text \<open>
  The state of a run: the local variable \<open>failures\<close> and everything the run has done
  so far: the files, the log, the sleeps (in seconds), the commands launched, and how
  often the random source and the clock have been read.
\<close>

record batch_state =
  failures :: int
  files :: files
  log :: "log_record list"
  slept :: "int list"
  commands :: "string list list"
  draws :: nat
  clock_reads :: nat

text \<open>How a statement ends: it falls through, \<open>main\<close> returns, or an exception escapes.\<close>

datatype flow = Continue | Return int | Raise py_error

subsection \<open>\<open>polite_pause\<close>\<close>

text \<open>
  \<open>random.randint(a, b)\<close> raises \<open>ValueError\<close> on an empty range and otherwise
  returns some integer of the range: the entropy, forced into \<open>[a, b]\<close>.
\<close>

definition randint :: "batch_env \<Rightarrow> nat \<Rightarrow> int \<Rightarrow> int \<Rightarrow> py_error + int" where
  "randint env k a b = (if b < a then Inl ValueError else Inr (max a (min b (entropy env k))))"

text \<open>
  The draw, the log record, the sleep: an exception of \<open>randint\<close> or of \<open>time.sleep\<close>
  escapes.
\<close>

definition polite_pause ::
  "batch_env \<Rightarrow> int \<Rightarrow> int \<Rightarrow> string \<Rightarrow> batch_state \<Rightarrow> flow \<times> batch_state" where
  "polite_pause env min_s max_s reason s =
     (case randint env (draws s) min_s max_s of
        Inl e \<Rightarrow> (Raise e, s)
      | Inr delay \<Rightarrow>
          (let s1 = s\<lparr>draws := draws s + 1, log := log s @ [LogPausing delay reason]\<rparr>
           in case time_sleep (of_int delay) of
                Some e \<Rightarrow> (Raise e, s1)
              | None \<Rightarrow> (Continue, s1\<lparr>slept := slept s1 @ [delay]\<rparr>)))"

subsection \<open>\<open>record_failure\<close>\<close>

definition newline :: char where
  "newline = CHR 0x0A"

text \<open>The f-string \<open>f"{year:04d},{month:02d},{timestamp},{exit_code}\n"\<close>.\<close>

definition failure_line :: "int \<Rightarrow> int \<Rightarrow> string \<Rightarrow> int option \<Rightarrow> string" where
  "failure_line year month timestamp exit_code =
     format_0d 4 year @ '','' @ format_0d 2 month @ '','' @ timestamp @ '','' @
     str_int_opt exit_code @ [newline]"

text \<open>\<open>path.open("a")\<close>, \<open>write\<close>, close: the text goes to the end of the file.\<close>

definition append_text :: "files \<Rightarrow> string \<Rightarrow> string \<Rightarrow> files" where
  "append_text fs path txt =
     fs(path \<mapsto> (case fs path of None \<Rightarrow> txt | Some old \<Rightarrow> old @ txt))"

definition record_failure ::
  "batch_env \<Rightarrow> string \<Rightarrow> int \<Rightarrow> int \<Rightarrow> int option \<Rightarrow> batch_state \<Rightarrow> batch_state" where
  "record_failure env path year month exit_code s =
     (let timestamp = isoformat_seconds (utcnow env (clock_reads s)) @ ''Z'';
          line = failure_line year month timestamp exit_code
      in s\<lparr>clock_reads := clock_reads s + 1, files := append_text (files s) path line\<rparr>)"

subsection \<open>\<open>main\<close>: the loop over the months\<close>

text \<open>
  \<open>Path(outdir) / name\<close> for a relative \<open>name\<close>. (pathlib also normalises the
  directory part; it is the same for every month of a run.)
\<close>

definition path_join :: "string \<Rightarrow> string \<Rightarrow> string" where
  "path_join dir name = dir @ ''/'' @ name"

definition outfile_of :: "batch_args \<Rightarrow> int \<Rightarrow> int \<Rightarrow> string" where
  "outfile_of args year month =
     (let name = (if journal args \<noteq> [] then journal args else ''default'')
      in path_join (outdir args)
           (''dw_export_'' @ name @ ''_'' @ format_0d 4 year @ ''-'' @ format_0d 2 month @ ''.xml''))"

definition cmd_of :: "batch_env \<Rightarrow> batch_args \<Rightarrow> int \<Rightarrow> int \<Rightarrow> string list" where
  "cmd_of env args year month =
     [executable env, ''dw-downloader.py'',
      ''--year'', str_int year,
      ''--month'', str_int month,
      ''--cookie-file'', cookie_file args,
      ''--outdir'', outdir args] @
     (if journal args \<noteq> [] then [''--journal'', journal args] else [])"

text \<open>
  Lines 129 to 136: the export succeeded. The pause either falls through (\<open>continue\<close>)
  or raises.
\<close>

definition success_path ::
  "batch_env \<Rightarrow> batch_args \<Rightarrow> int \<Rightarrow> int \<Rightarrow> batch_state \<Rightarrow> flow \<times> batch_state" where
  "success_path env args year month s =
     polite_pause env (normal_pause_min args) (normal_pause_max args) ''normal''
       (s\<lparr>log := log s @ [LogSuccess year month], failures := 0\<rparr>)"

text \<open>The two warnings that show what the child process printed, if anything.\<close>

definition output_warnings :: "completed_process \<Rightarrow> log_record list" where
  "output_warnings result =
     (if stdout result \<noteq> [] then [LogStdout (py_strip (stdout result))] else []) @
     (if stderr result \<noteq> [] then [LogStderr (py_strip (stderr result))] else [])"

text \<open>Lines 138 to 165, the failure path.\<close>

definition failure_path ::
  "batch_env \<Rightarrow> batch_args \<Rightarrow> int \<Rightarrow> int \<Rightarrow> completed_process \<Rightarrow> batch_state \<Rightarrow>
   flow \<times> batch_state" where
  "failure_path env args year month result s =
     (let s1 = s\<lparr>failures := failures s + 1,
                 log := log s @ [LogFailure year month (returncode result)]\<rparr>;
          s2 = record_failure env (failure_log args) year month (Some (returncode result)) s1;
          s3 = s2\<lparr>log := log s2 @ output_warnings result\<rparr>
      in case polite_pause env (grumpy_pause_min args) (grumpy_pause_max args)
                (''grumpy (consecutive failures: '' @ str_int (failures s3) @ '')'') s3 of
           (Continue, s4) \<Rightarrow>
             if failures s4 \<ge> 5
             then (Return 3, s4\<lparr>log := log s4 @ [LogTooManyFailures]\<rparr>)
             else (Continue, s4)
         | (f, s4) \<Rightarrow> (f, s4))"

text \<open>One pass through the body of the \<open>for\<close> loop (lines 105 to 165).\<close>

definition loop_body ::
  "batch_env \<Rightarrow> batch_args \<Rightarrow> int \<times> int \<Rightarrow> batch_state \<Rightarrow> flow \<times> batch_state" where
  "loop_body env args ym s =
     (let year = fst ym; month = snd ym;
          outfile = outfile_of args year month
      in if files s outfile \<noteq> None
         then (Continue, s\<lparr>log := log s @ [LogSkipping year month]\<rparr>)
         else
           (let s1 = s\<lparr>log := log s @ [LogExporting year month]\<rparr>;
                cmd = cmd_of env args year month;
                result = fst (run env cmd (files s1));
                s2 = s1\<lparr>files := snd (run env cmd (files s1)),
                        commands := commands s1 @ [cmd]\<rparr>
            in if returncode result = 0 \<and> files s2 outfile \<noteq> None
               then success_path env args year month s2
               else failure_path env args year month result s2))"

fun for_months ::
  "batch_env \<Rightarrow> batch_args \<Rightarrow> (int \<times> int) list \<Rightarrow> batch_state \<Rightarrow> flow \<times> batch_state" where
  "for_months env args [] s = (Continue, s)"
| "for_months env args (ym # rest) s =
     (case loop_body env args ym s of
        (Continue, s') \<Rightarrow> for_months env args rest s'
      | (f, s') \<Rightarrow> (f, s'))"

text \<open>
  \<open>main\<close> from line 97, on the file system it finds: \<open>failures = 0\<close>, the loop, and
  \<open>return 0\<close> when the loop runs to its end.
\<close>

definition initial_state :: "files \<Rightarrow> batch_state" where
  "initial_state fs =
     \<lparr>failures = 0, files = fs, log = [], slept = [], commands = [], draws = 0,
      clock_reads = 0\<rparr>"

definition batch_main :: "batch_env \<Rightarrow> batch_args \<Rightarrow> files \<Rightarrow> flow \<times> batch_state" where
  "batch_main env args fs =
     (case for_months env args
             (month_range (start_year args) (start_month args) (end_year args) (end_month args))
             (initial_state fs) of
        (Continue, s) \<Rightarrow>
          (Return 0, s\<lparr>log := log s @ [LogBatchComplete, LogFailureLogWritten (failure_log args)]\<rparr>)
      | (f, s) \<Rightarrow> (f, s))"

subsection \<open>What a run shows\<close>

text \<open>The state when \<open>subprocess.run\<close> has returned for a month.\<close>

definition exported_state ::
  "batch_env \<Rightarrow> batch_args \<Rightarrow> int \<Rightarrow> int \<Rightarrow> batch_state \<Rightarrow> batch_state" where
  "exported_state env args year month s =
     s\<lparr>log := log s @ [LogExporting year month],
       files := snd (run env (cmd_of env args year month) (files s)),
       commands := commands s @ [cmd_of env args year month]\<rparr>"

text \<open>
  Python's order on the pairs \<open>(year, month)\<close>.
\<close>

definition tuple_le :: "int \<times> int \<Rightarrow> int \<times> int \<Rightarrow> bool" where
  "tuple_le a b = (fst a < fst b \<or> (fst a = fst b \<and> snd a \<le> snd b))"

definition tuple_lt :: "int \<times> int \<Rightarrow> int \<times> int \<Rightarrow> bool" where
  "tuple_lt a b = (fst a < fst b \<or> (fst a = fst b \<and> snd a < snd b))"

text \<open>
  The pause bounds for which \<open>polite_pause\<close> cannot raise: \<open>randint\<close> has a range
  to draw from, and \<open>time.sleep\<close> gets no negative length and none above 9223372036
  seconds, the most whose nanoseconds fit into 64 bits.
\<close>

definition pauses_ok :: "batch_args \<Rightarrow> bool" where
  "pauses_ok args =
     (0 \<le> normal_pause_min args \<and> normal_pause_min args \<le> normal_pause_max args \<and>
      normal_pause_max args \<le> 9223372036 \<and>
      0 \<le> grumpy_pause_min args \<and> grumpy_pause_min args \<le> grumpy_pause_max args \<and>
      grumpy_pause_max args \<le> 9223372036)"

text \<open>
  Read off the log: the outcomes of the exports in order (\<open>True\<close> for a success,
  \<open>False\<close> for a failure), the months the loop came to, and the months it exported.
\<close>

fun export_outcomes :: "log_record list \<Rightarrow> bool list" where
  "export_outcomes [] = []"
| "export_outcomes (LogSuccess y m # l) = True # export_outcomes l"
| "export_outcomes (LogFailure y m c # l) = False # export_outcomes l"
| "export_outcomes (r # l) = export_outcomes l"

fun visited :: "log_record list \<Rightarrow> (int \<times> int) list" where
  "visited [] = []"
| "visited (LogSkipping y m # l) = (y, m) # visited l"
| "visited (LogExporting y m # l) = (y, m) # visited l"
| "visited (r # l) = visited l"

fun exported :: "log_record list \<Rightarrow> (int \<times> int) list" where
  "exported [] = []"
| "exported (LogExporting y m # l) = (y, m) # exported l"
| "exported (r # l) = exported l"




subsection \<open>A run of ten months\<close>

text \<open>
  The months January to October 2020, none exported yet. The child process fails with
  exit code 4 for every month but May, for which it writes the month's file and returns 0:
  four failures, a success, five failures.
\<close>

definition ten_months :: batch_args where
  "ten_months =
     \<lparr>start_year = 2020, start_month = 1, end_year = 2020, end_month = 10,
      cookie_file = ''cookies.txt'', journal = [], outdir = ''dw_exports'',
      normal_pause_min = 5, normal_pause_max = 10,
      grumpy_pause_min = 30, grumpy_pause_max = 60,
      failure_log = ''failed_months.csv''\<rparr>"

definition noon :: datetime where
  "noon = \<lparr>dt_year = 2024, dt_month = 6, dt_day = 1, dt_hour = 12, dt_minute = 0, dt_second = 0\<rparr>"

definition only_may :: batch_env where
  "only_may =
     \<lparr>executable = ''/usr/bin/python3'',
      run = (\<lambda>cmd fs.
               if cmd ! 5 = ''5''
               then (\<lparr>returncode = 0, stdout = [], stderr = []\<rparr>,
                     fs(outfile_of ten_months 2020 5 \<mapsto> ''<livejournal></livejournal>''))
               else (\<lparr>returncode = 4, stdout = [], stderr = ''not xml''\<rparr>, fs)),
      entropy = (\<lambda>k. 7),
      utcnow = (\<lambda>k. noon)\<rparr>"

text \<open>
  The same ten months when every export is turned away: the child process returns 3 and
  writes nothing.
\<close>

definition always_failing :: batch_env where
  "always_failing =
     \<lparr>executable = ''/usr/bin/python3'',
      run = (\<lambda>cmd fs. (\<lparr>returncode = 3, stdout = [], stderr = ''not authenticated''\<rparr>, fs)),
      entropy = (\<lambda>k. 45),
      utcnow = (\<lambda>k. noon)\<rparr>"



text \<open>
  A state in the middle of a run: three failures so far, and the file of April 2020
  is there.
\<close>

definition after_three_failures :: batch_state where
  "after_three_failures =
     \<lparr>failures = 3,
      files = [''dw_exports/dw_export_default_2020-04.xml'' \<mapsto> ''<livejournal></livejournal>''],
      log = [], slept = [30, 30, 30], commands = [], draws = 3, clock_reads = 3\<rparr>"

section \<open>dw-downloader.py\<close>

text \<open>
  A \<open>Dict[str, str]\<close> is the list of its items in insertion order, with distinct
  keys: \<open>d[k] = v\<close> is \<open>AList.update k v d\<close>, which overwrites the value of a key
  in place and puts a new key last, and \<open>map_of d k\<close> looks a key up.
\<close>

type_synonym dict = "(string \<times> string) list"

subsection \<open>Cookies: \<open>parse_cookie_header\<close>, \<open>load_netscape_cookie_file\<close>\<close>

definition parse_cookie_header :: "string \<Rightarrow> dict" where
  "parse_cookie_header header =
     foldl (\<lambda>cookies part0.
              (let part = py_strip part0
               in if part = [] \<or> CHR ''='' \<notin> set part then cookies
                  else (case py_split1 (CHR ''='') part of
                          [k, v] \<Rightarrow> AList.update (py_strip k) (py_strip v) cookies
                        | _ \<Rightarrow> cookies)))
       [] (py_split (CHR '';'') header)"

text \<open>
  \<open>str.splitlines()\<close> below code point 256: a line ends at \<open>\n\<close>, \<open>\r\<close>, \<open>\r\n\<close>,
  \<open>\v\<close>, \<open>\f\<close>, the separators 0x1C-0x1E and NEL (0x85); the text after the last
  line end is a line if it is not empty.
\<close>

definition is_linebreak :: "char \<Rightarrow> bool" where
  "is_linebreak c =
     (let n = of_char c :: nat in (10 \<le> n \<and> n \<le> 13) \<or> (28 \<le> n \<and> n \<le> 30) \<or> n = 133)"

fun splitlines_from :: "string \<Rightarrow> string \<Rightarrow> string list" where
  "splitlines_from cur [] = (if cur = [] then [] else [rev cur])"
| "splitlines_from cur [c] = (if is_linebreak c then [rev cur] else [rev (c # cur)])"
| "splitlines_from cur (c # d # cs) =
     (if c = CHR 0x0D \<and> d = CHR 0x0A then rev cur # splitlines_from [] cs
      else if is_linebreak c then rev cur # splitlines_from [] (d # cs)
      else splitlines_from (c # cur) (d # cs))"

definition py_splitlines :: "string \<Rightarrow> string list" where
  "py_splitlines s = splitlines_from [] s"

text \<open>
  \<open>path.read_text(errors="ignore")\<close> is the text the file system holds for the path.
\<close>

definition load_netscape_cookie_file :: "files \<Rightarrow> string \<Rightarrow> string \<Rightarrow> py_error + dict" where
  "load_netscape_cookie_file fs path domain =
     (case fs path of
        None \<Rightarrow> Inl (FileNotFoundError (''Cookie file not found: '' @ path))
      | Some content \<Rightarrow>
          (let cookies =
                 foldl (\<lambda>cookies line.
                          if line = [] \<or> prefix ''#'' line then cookies
                          else (let parts = py_split (CHR 0x09) line
                                in if length parts \<ge> 7 \<and> py_in domain (parts ! 0)
                                   then AList.update (parts ! 5) (parts ! 6) cookies
                                   else cookies))
                   [] (py_splitlines content)
           in if cookies = []
              then Inl (RuntimeError (''No cookies for domain containing '' @ [CHR 0x27] @ domain @
                                      [CHR 0x27] @ '' found in '' @ path))
              else Inr cookies))"

subsection \<open>\<open>request_with_retries\<close>\<close>

text \<open>
  A \<open>requests.Response\<close>: \<open>final_url\<close> is \<open>r.url\<close>, the URL after redirects;
  \<open>content_type\<close> is \<open>r.headers.get("Content-Type")\<close>; \<open>body_text\<close> is \<open>r.text\<close>.
\<close>

record response =
  status_code :: int
  final_url :: string
  content_type :: "string option"
  body_text :: string







text \<open>
  What a session has done: the number of requests sent, the attempts after which a
  back-off warning was logged, the number of calls of \<open>random.random()\<close>, and the
  lengths in seconds of the sleeps that \<open>time.sleep\<close> accepted.
\<close>

record session =
  cookies :: dict
  requests_sent :: nat
  backoffs :: "int list"
  random_draws :: nat
  sleeps :: "rat list"








subsection \<open>The parsed page\<close>

text \<open>
  What \<open>BeautifulSoup(html, "html.parser")\<close> builds: a tree of tags, each with its
  name, the dict of its attributes and its children, and of the strings between them.
  The soup itself is the tag that holds the whole document. A \<open>NavigableString\<close> of
  the tree is a plain string of the page. The strings of the other classes (comments,
  declarations, and the contents of \<open>script\<close>, \<open>style\<close> and \<open>template\<close> elements) are
  not part of the tree: \<open>get_text\<close> leaves them out, and nothing else in the script reads
  the strings of a page.
\<close>

datatype node =
    NavigableString string
  | Tag string dict "node list"

text \<open>\<open>tag.descendants\<close>: everything below the tag, in document order.\<close>

fun descendants :: "node \<Rightarrow> node list" where
  "descendants (NavigableString s) = []"
| "descendants (Tag name attrs children) = concat (map (\<lambda>c. c # descendants c) children)"

fun is_tag :: "string \<Rightarrow> node \<Rightarrow> bool" where
  "is_tag name (NavigableString s) = False"
| "is_tag name (Tag name' attrs children) = (name' = name)"

text \<open>\<open>tag.get(key)\<close> (\<open>None\<close> when the attribute is absent) and \<open>tag.get(key, default)\<close>.\<close>

fun get :: "node \<Rightarrow> string \<Rightarrow> string option" where
  "get (NavigableString s) key = None"
| "get (Tag name attrs children) key = map_of attrs key"

definition get_or :: "node \<Rightarrow> string \<Rightarrow> string \<Rightarrow> string" where
  "get_or t key dflt = (case get t key of None \<Rightarrow> dflt | Some v \<Rightarrow> v)"

text \<open>\<open>tag.find_all(name)\<close> and \<open>tag.find_all(name, {key: value})\<close>.\<close>

definition find_all :: "string \<Rightarrow> node \<Rightarrow> node list" where
  "find_all name t = filter (is_tag name) (descendants t)"

definition find_all_with :: "string \<Rightarrow> string \<Rightarrow> string \<Rightarrow> node \<Rightarrow> node list" where
  "find_all_with name key v t = filter (\<lambda>d. get d key = Some v) (find_all name t)"

text \<open>\<open>tag.find(name, {key: value})\<close>: the first match, or \<open>None\<close>.\<close>

definition find_with :: "string \<Rightarrow> string \<Rightarrow> string \<Rightarrow> node \<Rightarrow> node option" where
  "find_with name key v t = (case find_all_with name key v t of [] \<Rightarrow> None | d # _ \<Rightarrow> Some d)"

text \<open>\<open>sep.join(parts)\<close>.\<close>

fun py_join :: "string \<Rightarrow> string list \<Rightarrow> string" where
  "py_join sep [] = []"
| "py_join sep [p] = p"
| "py_join sep (p # q # ps) = p @ sep @ py_join sep (q # ps)"

fun strings_of :: "node \<Rightarrow> string list" where
  "strings_of (NavigableString s) = [s]"
| "strings_of (Tag name attrs children) = concat (map strings_of children)"

text \<open>
  \<open>tag.get_text(sep, strip=True)\<close>: the strings below the tag, each stripped, the
  empty ones dropped, joined by \<open>sep\<close>.
\<close>

definition get_text_strip :: "string \<Rightarrow> node \<Rightarrow> string" where
  "get_text_strip sep t = py_join sep (filter (\<lambda>s. s \<noteq> []) (map py_strip (strings_of t)))"

subsection \<open>\<open>choose_export_form\<close>\<close>

definition has_year_or_month_select :: "node \<Rightarrow> bool" where
  "has_year_or_month_select f =
     (find_with ''select'' ''name'' ''year'' f \<noteq> None \<or>
      find_with ''select'' ''name'' ''month'' f \<noteq> None)"

definition mentions_export :: "node \<Rightarrow> bool" where
  "mentions_export f = py_in ''export'' (py_lower (get_text_strip '' '' f))"

text \<open>The \<open>for f in forms\<close> loop: \<open>None\<close> when it ends without a \<open>return\<close>.\<close>

fun scan_forms :: "node list \<Rightarrow> node option" where
  "scan_forms [] = None"
| "scan_forms (f # fs) =
     (if has_year_or_month_select f then Some f
      else if mentions_export f then Some f
      else scan_forms fs)"

definition choose_export_form :: "node \<Rightarrow> py_error + node" where
  "choose_export_form soup =
     (case find_all ''form'' soup of
        [] \<Rightarrow> Inl (RuntimeError ''No <form> found on /export page. Are you logged in?'')
      | first # others \<Rightarrow>
          (case scan_forms (first # others) of
             Some f \<Rightarrow> Inr f
           | None \<Rightarrow> Inr first))"

subsection \<open>\<open>guess_year_month_field_names\<close>\<close>

text \<open>\<open>sum(1 for o in opts if o.isdigit() and len(o) == 4)\<close>.\<close>

definition yearish_of :: "string list \<Rightarrow> nat" where
  "yearish_of opts = length (filter (\<lambda>opt. py_isdigit opt \<and> length opt = 4) opts)"

text \<open>
  \<open>sum(1 for o in opts if o.isdigit() and 1 <= int(o) <= 12) if opts else 0\<close>:
  \<open>int(o)\<close> raises \<open>ValueError\<close> on a digit that is not decimal.
\<close>

fun monthish_sum :: "string list \<Rightarrow> py_error + nat" where
  "monthish_sum [] = Inr 0"
| "monthish_sum (opt # opts) =
     (if py_isdigit opt
      then (case py_int opt of
              Inl e \<Rightarrow> Inl e
            | Inr v \<Rightarrow> map_sum id (\<lambda>n. (if 1 \<le> v \<and> v \<le> 12 then 1 else 0) + n)
                        (monthish_sum opts))
      else monthish_sum opts)"

definition monthish_of :: "string list \<Rightarrow> py_error + nat" where
  "monthish_of opts = (if opts \<noteq> [] then monthish_sum opts else Inr 0)"

text \<open>The \<open>for sel in form.find_all("select")\<close> loop, from the field names so far.\<close>

fun guess_loop :: "node list \<Rightarrow> string \<Rightarrow> string \<Rightarrow> py_error + string \<times> string" where
  "guess_loop [] year_field month_field = Inr (year_field, month_field)"
| "guess_loop (sel # sels) year_field month_field =
     (case get sel ''name'' of
        None \<Rightarrow> guess_loop sels year_field month_field
      | Some name \<Rightarrow>
          if name = [] then guess_loop sels year_field month_field
          else
            (let opts = map (get_text_strip []) (find_all ''option'' sel);
                 yearish = yearish_of opts
             in case monthish_of opts of
                  Inl e \<Rightarrow> Inl e
                | Inr monthish \<Rightarrow>
                    guess_loop sels
                      (if yearish \<ge> 5 then name else year_field)
                      (if monthish \<ge> 5 then name else month_field)))"

definition guess_year_month_field_names :: "node \<Rightarrow> py_error + string \<times> string" where
  "guess_year_month_field_names form = guess_loop (find_all ''select'' form) ''year'' ''month''"

subsection \<open>\<open>force_output_format_xml\<close>\<close>

text \<open>The pair \<open>(value, label)\<close> that the function keeps of an \<open>option\<close>.\<close>

definition option_pair :: "node \<Rightarrow> string \<times> string" where
  "option_pair opt = (get_or opt ''value'' [], get_text_strip [] opt)"

definition xml_like :: "string \<times> string \<Rightarrow> bool" where
  "xml_like vl = (py_in ''xml'' (py_lower (fst vl)) \<or> py_in ''xml'' (py_lower (snd vl)))"

text \<open>
  The loop over the selects: at the first option that looks like XML it yields the
  field's name and the value to set; \<open>None\<close> when the loop ends without a \<open>return\<close>.
\<close>

fun scan_selects :: "node list \<Rightarrow> (string \<times> string) option" where
  "scan_selects [] = None"
| "scan_selects (sel # sels) =
     (case get sel ''name'' of
        None \<Rightarrow> scan_selects sels
      | Some name \<Rightarrow>
          if name = [] then scan_selects sels
          else (case List.find xml_like (map option_pair (find_all ''option'' sel)) of
                  Some (v, label) \<Rightarrow> Some (name, if v \<noteq> [] then v else label)
                | None \<Rightarrow> scan_selects sels))"

text \<open>
  \<open>radio_groups.setdefault(name, []).append((value, value))\<close> over the radio inputs:
  a dict from the name to the values of its group, the groups in the order in which
  their names first occur.
\<close>

fun setdefault_append :: "(string \<times> string list) list \<Rightarrow> string \<Rightarrow> string \<Rightarrow> (string \<times> string list) list" where
  "setdefault_append [] name v = [(name, [v])]"
| "setdefault_append ((k, vs) # groups) name v =
     (if k = name then (k, vs @ [v]) # groups else (k, vs) # setdefault_append groups name v)"

definition radio_groups_of :: "node \<Rightarrow> (string \<times> string list) list" where
  "radio_groups_of form =
     foldl (\<lambda>groups inp.
              (case get inp ''name'' of
                 None \<Rightarrow> groups
               | Some name \<Rightarrow>
                   if name = [] then groups
                   else setdefault_append groups name (get_or inp ''value'' [])))
       [] (find_all_with ''input'' ''type'' ''radio'' form)"

fun scan_radios :: "(string \<times> string list) list \<Rightarrow> (string \<times> string) option" where
  "scan_radios [] = None"
| "scan_radios ((name, vs) # groups) =
     (case List.find (\<lambda>v. py_in ''xml'' (py_lower v)) vs of
        Some v \<Rightarrow> Some (name, v)
      | None \<Rightarrow> scan_radios groups)"

text \<open>The result is the returned flag together with the payload, which Python mutates.\<close>

definition force_output_format_xml :: "node \<Rightarrow> dict \<Rightarrow> bool \<times> dict" where
  "force_output_format_xml form payload =
     (case scan_selects (find_all ''select'' form) of
        Some (name, v) \<Rightarrow> (True, AList.update name v payload)
      | None \<Rightarrow>
          (case scan_radios (radio_groups_of form) of
             Some (name, v) \<Rightarrow> (True, AList.update name v payload)
           | None \<Rightarrow> (False, payload)))"

subsection \<open>\<open>main\<close>: the session and the export page\<close>

record downloader_args =
  year_arg :: int
  month_arg :: int
  cookie_file_arg :: "string option"
  cookie_header_arg :: "string option"
  journal_arg :: string

text \<open>
  How the first part of \<open>main\<close> (lines 278 to 299) ends: \<open>return code\<close>, an exception,
  or the cookies of the session it goes on with.
\<close>

datatype bootstrap = Exit int | Crash py_error | Cookies dict

definition text_of :: "string option \<Rightarrow> string" where
  "text_of v = (case v of None \<Rightarrow> [] | Some s \<Rightarrow> s)"

definition main_bootstrap :: "files \<Rightarrow> downloader_args \<Rightarrow> bootstrap" where
  "main_bootstrap fs args =
     (if \<not> (1 \<le> month_arg args \<and> month_arg args \<le> 12) then Exit 2
      else if \<not> truthy (cookie_file_arg args) \<and> \<not> truthy (cookie_header_arg args) then Exit 2
      else if truthy (cookie_file_arg args)
      then (case load_netscape_cookie_file fs (text_of (cookie_file_arg args)) ''dreamwidth.org'' of
              Inl e \<Rightarrow> Crash e
            | Inr cs \<Rightarrow> Cookies cs)
      else Cookies (parse_cookie_header (text_of (cookie_header_arg args))))"

text \<open>
  The test of line 310 on the response to the GET of the export page, which the
  specification calls \<open>isAuthenticated\<close> (negated).
\<close>

definition redirected_to_login :: "response \<Rightarrow> bool" where
  "redirected_to_login r =
     (py_in ''returnto=/export'' (final_url r) \<or> py_in ''login'' (py_lower (final_url r)))"

definition is_authenticated :: "response \<Rightarrow> bool" where
  "is_authenticated r = (\<not> redirected_to_login r)"

text \<open>
  Lines 310 to 317: the stage under which the debug artifacts are written and the
  return code, or \<open>None\<close> when \<open>main\<close> goes on to the form.
\<close>

definition main_check_export_page :: "response \<Rightarrow> (string \<times> int) option" where
  "main_check_export_page r =
     (if redirected_to_login r then Some (''get_export_redirect'', 3)
      else if status_code r \<noteq> 200 then Some (''get_export_badstatus'', 3)
      else None)"

subsection \<open>What the functions read off a form\<close>

text \<open>
  A tag that passes \<open>if not name: continue\<close>, and its name. The selects of a form that
  pass it, and the texts of the options of a select.
\<close>

definition named :: "node \<Rightarrow> bool" where
  "named t = (case get t ''name'' of None \<Rightarrow> False | Some n \<Rightarrow> n \<noteq> [])"

definition name_of :: "node \<Rightarrow> string" where
  "name_of t = get_or t ''name'' []"

definition named_selects :: "node \<Rightarrow> node list" where
  "named_selects form = filter named (find_all ''select'' form)"

definition option_texts :: "node \<Rightarrow> string list" where
  "option_texts sel = map (get_text_strip []) (find_all ''option'' sel)"

text \<open>
  The two thresholds of \<open>guess_year_month_field_names\<close>: at least five options of four
  digits, and at least five options that are numerals from 1 to 12.
\<close>

definition qualifies_year :: "node \<Rightarrow> bool" where
  "qualifies_year sel = (5 \<le> yearish_of (option_texts sel))"

definition qualifies_month :: "node \<Rightarrow> bool" where
  "qualifies_month sel =
     (case monthish_of (option_texts sel) of Inl e \<Rightarrow> False | Inr n \<Rightarrow> 5 \<le> n)"

text \<open>
  The options that look like XML in the named selects of a form, in document order, each
  with the name of its select; and the radio inputs that have a name.
\<close>

definition xml_options :: "node \<Rightarrow> (string \<times> string \<times> string) list" where
  "xml_options form =
     concat (map (\<lambda>sel. map (\<lambda>vl. (name_of sel, vl))
                          (filter xml_like (map option_pair (find_all ''option'' sel))))
                 (named_selects form))"

definition named_radios :: "node \<Rightarrow> node list" where
  "named_radios form = filter named (find_all_with ''input'' ''type'' ''radio'' form)"

text \<open>The pairs of a name and a value that a dict of radio groups holds.\<close>

definition group_pairs :: "(string \<times> string list) list \<Rightarrow> (string \<times> string) set" where
  "group_pairs groups = {(k, v). \<exists>vs. (k, vs) \<in> set groups \<and> v \<in> set vs}"

text \<open>
  The selection as section 4.3 of the specification words it: the first form with a select
  named \<open>year\<close> or \<open>month\<close>; if there is none, the first form whose text mentions
  \<open>export\<close>; if there is none either, the first form.
\<close>

definition spec_three_tier_choice :: "node list \<Rightarrow> node option" where
  "spec_three_tier_choice forms =
     (case List.find has_year_or_month_select forms of
        Some f \<Rightarrow> Some f
      | None \<Rightarrow>
          (case List.find mentions_export forms of
             Some f \<Rightarrow> Some f
           | None \<Rightarrow> (case forms of [] \<Rightarrow> None | f # _ \<Rightarrow> Some f)))"

subsection \<open>Pages, sessions and command lines\<close>

text \<open>
  A page with two forms: a search form whose text mentions exported entries, and after
  it the form with the selects \<open>year\<close> and \<open>month\<close>.
\<close>

definition search_form :: node where
  "search_form =
     Tag ''form'' [(''action'', ''/search'')]
       [NavigableString ''Search your exported entries'',
        Tag ''input'' [(''type'', ''text''), (''name'', ''q'')] []]"

definition month_form :: node where
  "month_form =
     Tag ''form'' [(''action'', ''/export_do'')]
       [Tag ''select'' [(''name'', ''year'')]
          [Tag ''option'' [(''value'', ''2020'')] [NavigableString ''2020'']],
        Tag ''select'' [(''name'', ''month'')]
          [Tag ''option'' [(''value'', ''5'')] [NavigableString ''5'']],
        Tag ''input'' [(''type'', ''submit''), (''value'', ''Go'')] []]"

definition two_forms_page :: node where
  "two_forms_page =
     Tag ''[document]'' []
       [Tag ''html'' [] [Tag ''body'' [] [search_form, NavigableString '' '', month_form]]]"

text \<open>
  A page on which a form with a single text input, and no text, comes before the form
  with the selects.
\<close>

definition plain_form :: node where
  "plain_form = Tag ''form'' [(''action'', ''/search'')] [Tag ''input'' [(''name'', ''q'')] []]"

definition picker_page :: node where
  "picker_page =
     Tag ''[document]'' []
       [Tag ''html'' [] [Tag ''body'' [] [plain_form, month_form]]]"

text \<open>Forms with selects of years and months.\<close>

definition options_for :: "string list \<Rightarrow> node list" where
  "options_for texts = map (\<lambda>t. Tag ''option'' [(''value'', t)] [NavigableString t]) texts"

definition year_menus :: node where
  "year_menus =
     Tag ''form'' [(''action'', ''/export_do'')]
       [Tag ''select'' [(''name'', ''from_year'')]
          (options_for [''2001'', ''2002'', ''2003'', ''2004'', ''2005'']),
        Tag ''select'' [(''name'', ''to_year'')]
          (options_for [''2006'', ''2007'', ''2008'', ''2009'', ''2010'']),
        Tag ''select'' [(''name'', ''mon'')]
          (options_for [''1'', ''2'', ''3'', ''4'', ''5''])]"

definition padded_menu :: node where
  "padded_menu =
     Tag ''select'' [(''name'', ''when'')]
       (options_for [''0001'', ''0002'', ''0003'', ''0004'', ''0005''])"

definition unnamed_menu :: node where
  "unnamed_menu =
     Tag ''select'' [(''id'', ''archive'')]
       (options_for [''2006'', ''2007'', ''2008'', ''2009'', ''2010''])"

definition unnamed_last :: node where
  "unnamed_last =
     Tag ''form'' []
       [Tag ''select'' [(''name'', ''from_year'')]
          (options_for [''2001'', ''2002'', ''2003'', ''2004'', ''2005'']),
        unnamed_menu]"

text \<open>
  A select that offers HTML and XML, alone in a form and after a select without a name;
  and a form that offers the two as radio buttons.
\<close>

definition format_menu :: node where
  "format_menu =
     Tag ''select'' [(''name'', ''format'')]
       [Tag ''option'' [(''value'', ''1'')] [NavigableString ''HTML''],
        Tag ''option'' [(''value'', ''2'')] [NavigableString ''XML'']]"

definition format_form :: node where
  "format_form = Tag ''form'' [(''action'', ''/export_do'')] [format_menu]"

definition unnamed_format_form :: node where
  "unnamed_format_form =
     Tag ''form'' [(''action'', ''/export_do'')]
       [Tag ''select'' [(''id'', ''preview'')]
          [Tag ''option'' [(''value'', ''xml'')] [NavigableString ''XML preview'']],
        format_menu]"

definition radio_form :: node where
  "radio_form =
     Tag ''form'' []
       [Tag ''input'' [(''type'', ''radio''), (''name'', ''output''), (''value'', ''html'')] [],
        Tag ''input'' [(''type'', ''radio''), (''name'', ''output''), (''value'', ''xml'')] []]"

text \<open>
  A response whose final URL carries the return-to-export marker; an endpoint that always
  answers 503 and one that answers 200 from the third request on, both with a random
  source that always returns one half; a session that has sent nothing yet; and the
  default policy with the back-off base \<open>-1\<close>.
\<close>

definition returned_to_export :: response where
  "returned_to_export =
     \<lparr>status_code = 200, final_url = ''https://www.dreamwidth.org/?returnto=/export'',
      content_type = Some ''text/html'', body_text = []\<rparr>"





text \<open>
  A cookie file with one cookie of the domain, and two command lines: one with both cookie
  sources, one with the header only.
\<close>

definition cookie_jar :: files where
  "cookie_jar =
     [''cookies.txt'' \<mapsto>
        ''# Netscape HTTP Cookie File'' @ [newline] @
        ''.dreamwidth.org'' @ [CHR 0x09] @ ''TRUE'' @ [CHR 0x09] @ ''/'' @ [CHR 0x09] @
        ''TRUE'' @ [CHR 0x09] @ ''0'' @ [CHR 0x09] @ ''ljmastersession'' @ [CHR 0x09] @
        ''v2:u1:s2'' @ [newline]]"

definition both_sources :: downloader_args where
  "both_sources =
     \<lparr>year_arg = 2020, month_arg = 5, cookie_file_arg = Some ''cookies.txt'',
      cookie_header_arg = Some ''ljsession=abc; ljloggedin=1'', journal_arg = []\<rparr>"

definition header_only :: downloader_args where
  "header_only =
     \<lparr>year_arg = 2020, month_arg = 5, cookie_file_arg = None,
      cookie_header_arg = Some ''ljsession=abc; ljloggedin=1'', journal_arg = []\<rparr>"

section \<open>Properties of the formatting functions\<close>

lemma digit_chr_decimal: "d < 10 \<Longrightarrow> is_decimal (digit_chr d)"
proof -
  assume "d < 10"
  then have "d \<in> {0, 1, 2, 3, 4, 5, 6, 7, 8, 9}" by auto
  then show ?thesis by (auto simp: is_decimal_def digit_chr_def)
qed

lemma digit_val_digit_chr: "d < 10 \<Longrightarrow> digit_val (digit_chr d) = d"
proof -
  assume "d < 10"
  then have "d \<in> {0, 1, 2, 3, 4, 5, 6, 7, 8, 9}" by auto
  then show ?thesis by (auto simp: digit_val_def digit_chr_def)
qed

lemma str_nat_decimal: "list_all is_decimal (str_nat n)"
proof (induction n rule: str_nat.induct)
  case (1 n)
  show ?case
  proof (cases "n < 10")
    case True
    then show ?thesis by (simp add: str_nat.simps [of n] digit_chr_decimal)
  next
    case False
    with 1 show ?thesis by (simp add: str_nat.simps [of n] digit_chr_decimal)
  qed
qed

lemma str_nat_nonempty: "str_nat n \<noteq> []"
  by (subst str_nat.simps) simp

lemma nat_of_digits_snoc: "nat_of_digits (ds @ [c]) = 10 * nat_of_digits ds + digit_val c"
  by (simp add: nat_of_digits_def)

lemma nat_of_digits_str_nat: "nat_of_digits (str_nat n) = n"
proof (induction n rule: str_nat.induct)
  case (1 n)
  show ?case
  proof (cases "n < 10")
    case True
    then show ?thesis
      by (simp add: str_nat.simps [of n] nat_of_digits_def digit_val_digit_chr)
  next
    case False
    with 1 show ?thesis
      by (simp add: str_nat.simps [of n] nat_of_digits_snoc digit_val_digit_chr)
  qed
qed

lemma digit_val_zero: "digit_val (CHR ''0'') = 0"
  by (simp add: digit_val_def)

lemma nat_of_digits_zeros: "nat_of_digits (replicate k (CHR ''0'') @ ds) = nat_of_digits ds"
proof -
  have "foldl (\<lambda>a c. 10 * a + digit_val c) 0 (replicate k (CHR ''0'')) = 0"
    by (induction k) (simp_all add: digit_val_zero)
  then show ?thesis by (simp add: nat_of_digits_def)
qed

lemma is_decimal_zero: "is_decimal (CHR ''0'')"
  by (simp add: is_decimal_def)

lemma zfill_decimal: "list_all is_decimal ds \<Longrightarrow> list_all is_decimal (zfill w ds)"
  by (auto simp: zfill_def list_all_iff is_decimal_zero)

lemma zfill_nonempty: "ds \<noteq> [] \<Longrightarrow> zfill w ds \<noteq> []"
  by (simp add: zfill_def)

lemma unsigned_int_zfill: "unsigned_int (zfill w (str_nat n)) = Inr (int n)"
  by (simp add: unsigned_int_def zfill_decimal str_nat_decimal zfill_nonempty str_nat_nonempty)
     (simp add: zfill_def nat_of_digits_zeros nat_of_digits_str_nat)

lemma unsigned_int_str_nat: "unsigned_int (str_nat n) = Inr (int n)"
  using unsigned_int_zfill [of 0 n] by (simp add: zfill_def)

lemma decimal_not_sign: "is_decimal c \<Longrightarrow> c \<noteq> CHR ''-'' \<and> c \<noteq> CHR ''+'' \<and> c \<noteq> CHR '',''"
  by (auto simp: is_decimal_def)

lemma py_int_decimal:
  assumes "ds \<noteq> []" "list_all is_decimal ds"
  shows "py_int ds = unsigned_int ds"
proof (cases ds)
  case Nil
  with assms show ?thesis by simp
next
  case (Cons c cs)
  with assms have "is_decimal c" by simp
  then have "c \<noteq> CHR ''-''" "c \<noteq> CHR ''+''" using decimal_not_sign by blast+
  with Cons show ?thesis by (simp add: py_int_def)
qed

lemma py_int_format_0d: "py_int (format_0d w i) = Inr i"
proof (cases "i < 0")
  case True
  then show ?thesis by (simp add: format_0d_def py_int_def unsigned_int_zfill)
next
  case False
  have "py_int (zfill w (str_nat (nat i))) = unsigned_int (zfill w (str_nat (nat i)))"
    by (rule py_int_decimal) (simp_all add: zfill_nonempty str_nat_nonempty zfill_decimal str_nat_decimal)
  with False show ?thesis by (simp add: format_0d_def unsigned_int_zfill)
qed

lemma py_int_str_int: "py_int (str_int i) = Inr i"
  using py_int_format_0d [of 0 i] by (simp add: format_0d_def str_int_def zfill_def split: if_splits)

lemma comma_not_in_decimal: "list_all is_decimal ds \<Longrightarrow> CHR '','' \<notin> set ds"
  using decimal_not_sign by (auto simp: list_all_iff)

lemma comma_not_in_format_0d: "CHR '','' \<notin> set (format_0d w i)"
  using comma_not_in_decimal [OF zfill_decimal [OF str_nat_decimal]]
  by (simp add: format_0d_def)

lemma comma_not_in_str_int_opt: "CHR '','' \<notin> set (str_int_opt v)"
  using comma_not_in_decimal [OF str_nat_decimal]
  by (cases v) (simp_all add: str_int_opt_def str_int_def)

lemma comma_not_in_isoformat: "CHR '','' \<notin> set (isoformat_seconds d)"
  by (simp add: isoformat_seconds_def comma_not_in_format_0d)

lemma py_split_no_sep: "sep \<notin> set a \<Longrightarrow> py_split sep a = [a]"
  by (induction a) auto

lemma py_split_field: "sep \<notin> set a \<Longrightarrow> py_split sep (a @ sep # b) = a # py_split sep b"
  by (induction a) auto

section \<open>The failure ledger\<close>

lemma py_split_four:
  assumes "sep \<notin> set a" "sep \<notin> set b" "sep \<notin> set c" "sep \<notin> set d"
  shows "py_split sep (a @ sep # b @ sep # c @ sep # d) = [a, b, c, d]"
  by (simp add: py_split_field py_split_no_sep assms)

text \<open>
  C8. \<open>record_failure\<close> appends one line to the ledger. The line ends with a newline,
  and what stands before the newline splits on the comma into exactly the four fields
  written: the year, the month, the timestamp and the exit code. Split with its newline,
  the line gives the same four fields, the last one followed by the newline. No field
  holds a comma, the year and the month are read back by \<open>int\<close> as the numbers
  recorded, and so is the exit code (\<open>None\<close> is written as the word \<open>None\<close>).
\<close>

theorem record_failure_round_trip:
  "let timestamp = isoformat_seconds (utcnow env (clock_reads s)) @ ''Z'';
       line = failure_line year month timestamp exit_code
   in files (record_failure env path year month exit_code s) path =
        Some (text_of (files s path) @ line) \<and>
      last line = newline \<and>
      py_split (CHR '','') (butlast line) =
        [format_0d 4 year, format_0d 2 month, timestamp, str_int_opt exit_code] \<and>
      py_split (CHR '','') line =
        [format_0d 4 year, format_0d 2 month, timestamp, str_int_opt exit_code @ [newline]] \<and>
      CHR '','' \<notin> set (format_0d 4 year) \<and>
      CHR '','' \<notin> set (format_0d 2 month) \<and>
      CHR '','' \<notin> set timestamp \<and>
      CHR '','' \<notin> set (str_int_opt exit_code) \<and>
      py_int (format_0d 4 year) = Inr year \<and>
      py_int (format_0d 2 month) = Inr month \<and>
      (case exit_code of
         None \<Rightarrow> str_int_opt exit_code = ''None''
       | Some code \<Rightarrow> py_int (str_int_opt exit_code) = Inr code)"
proof -
  let ?ts = "isoformat_seconds (utcnow env (clock_reads s)) @ ''Z''"
  let ?line = "failure_line year month ?ts exit_code"
  let ?code = "str_int_opt exit_code"
  have ts: "CHR '','' \<notin> set ?ts"
    by (simp add: comma_not_in_isoformat)
  have code: "CHR '','' \<notin> set ?code" "CHR '','' \<notin> set (?code @ [newline])"
    by (simp_all add: comma_not_in_str_int_opt newline_def)
  have whole: "?line = format_0d 4 year @ CHR '','' # format_0d 2 month @ CHR '','' # ?ts @
      CHR '','' # (?code @ [newline])"
    by (simp add: failure_line_def)
  have line: "?line = (format_0d 4 year @ CHR '','' # format_0d 2 month @ CHR '','' # ?ts @
      CHR '','' # ?code) @ [newline]"
    by (simp add: failure_line_def)
  have last: "last ?line = newline"
    by (subst line) (rule last_snoc)
  have butlast: "butlast ?line = format_0d 4 year @ CHR '','' # format_0d 2 month @ CHR '','' #
      ?ts @ CHR '','' # ?code"
    by (subst line) (rule butlast_snoc)
  have fields: "py_split (CHR '','') (butlast ?line) =
      [format_0d 4 year, format_0d 2 month, ?ts, ?code]"
    unfolding butlast
    by (rule py_split_four [OF comma_not_in_format_0d comma_not_in_format_0d ts code(1)])
  have raw: "py_split (CHR '','') ?line =
      [format_0d 4 year, format_0d 2 month, ?ts, ?code @ [newline]]"
    by (subst whole)
       (rule py_split_four [OF comma_not_in_format_0d comma_not_in_format_0d ts code(2)])
  have read: "case exit_code of
         None \<Rightarrow> str_int_opt exit_code = ''None''
       | Some code \<Rightarrow> py_int (str_int_opt exit_code) = Inr code"
    by (cases exit_code) (simp_all add: str_int_opt_def py_int_str_int)
  have written: "files (record_failure env path year month exit_code s) path =
      Some (text_of (files s path) @ ?line)"
    by (simp add: record_failure_def append_text_def text_of_def Let_def split: option.split)
  from written last fields raw read ts code(1) show ?thesis
    unfolding Let_def by (simp add: py_int_format_0d comma_not_in_format_0d)
qed

section \<open>The loop over the months\<close>

subsection \<open>One pass\<close>


lemma visited_append: "visited (a @ b) = visited a @ visited b"
  by (induction a rule: visited.induct) simp_all

lemma exported_append: "exported (a @ b) = exported a @ exported b"
  by (induction a rule: exported.induct) simp_all

lemma time_sleep_ok:
  assumes "0 \<le> d" "d \<le> 9223372036"
  shows "time_sleep (of_int d) = None"
proof -
  from assms have "(0 :: rat) \<le> of_int d" "(of_int d :: rat) \<le> 9223372036"
    by simp_all
  then show ?thesis
    by (simp add: time_sleep_def)
qed

lemma polite_pause_ok:
  assumes "0 \<le> a" "a \<le> b" "b \<le> 9223372036"
  shows "polite_pause env a b reason s =
     (Continue,
      s\<lparr>draws := draws s + 1,
        log := log s @ [LogPausing (max a (min b (entropy env (draws s)))) reason],
        slept := slept s @ [max a (min b (entropy env (draws s)))]\<rparr>)"
proof -
  have "time_sleep (of_int (max a (min b (entropy env (draws s))))) = None"
    using assms by (intro time_sleep_ok) simp_all
  with assms show ?thesis
    by (simp add: polite_pause_def randint_def Let_def)
qed

lemma polite_pause_flow:
  "fst (polite_pause env a b reason s) = Continue \<or>
   (\<exists>e. fst (polite_pause env a b reason s) = Raise e)"
  by (simp add: polite_pause_def randint_def Let_def split: option.splits)


lemma loop_body_skip:
  assumes "files s (outfile_of args year month) \<noteq> None"
  shows "loop_body env args (year, month) s =
     (Continue, s\<lparr>log := log s @ [LogSkipping year month]\<rparr>)"
  using assms by (simp add: loop_body_def Let_def)

lemma loop_body_export:
  assumes "files s (outfile_of args year month) = None"
  shows "loop_body env args (year, month) s =
     (if returncode (fst (run env (cmd_of env args year month) (files s))) = 0 \<and>
         snd (run env (cmd_of env args year month) (files s)) (outfile_of args year month) \<noteq> None
      then success_path env args year month (exported_state env args year month s)
      else failure_path env args year month
             (fst (run env (cmd_of env args year month) (files s)))
             (exported_state env args year month s))"
  using assms by (auto simp: loop_body_def Let_def exported_state_def)

lemma success_path_ok:
  assumes "pauses_ok args"
  shows "success_path env args year month s =
     (Continue,
      s\<lparr>failures := 0,
        log := log s @ [LogSuccess year month,
                 LogPausing (max (normal_pause_min args)
                   (min (normal_pause_max args) (entropy env (draws s)))) ''normal''],
        slept := slept s @ [max (normal_pause_min args)
                   (min (normal_pause_max args) (entropy env (draws s)))],
        draws := draws s + 1\<rparr>)"
  using assms by (simp add: success_path_def pauses_ok_def polite_pause_ok)

lemma failure_path_ok:
  assumes "pauses_ok args"
  shows "failure_path env args year month result s =
     (if failures s + 1 \<ge> 5 then Return 3 else Continue,
      s\<lparr>failures := failures s + 1,
        files := append_text (files s) (failure_log args)
                   (failure_line year month
                      (isoformat_seconds (utcnow env (clock_reads s)) @ ''Z'')
                      (Some (returncode result))),
        log := log s @ [LogFailure year month (returncode result)] @
                 output_warnings result @
                 [LogPausing (max (grumpy_pause_min args)
                    (min (grumpy_pause_max args) (entropy env (draws s))))
                    (''grumpy (consecutive failures: '' @ str_int (failures s + 1) @ '')'')] @
                 (if failures s + 1 \<ge> 5 then [LogTooManyFailures] else []),
        slept := slept s @ [max (grumpy_pause_min args)
                   (min (grumpy_pause_max args) (entropy env (draws s)))],
        draws := draws s + 1,
        clock_reads := clock_reads s + 1\<rparr>)"
  using assms
  by (simp add: failure_path_def Let_def pauses_ok_def polite_pause_ok record_failure_def)

lemma loop_body_success:
  assumes "files s (outfile_of args year month) = None"
    and "returncode (fst (run env (cmd_of env args year month) (files s))) = 0"
    and "snd (run env (cmd_of env args year month) (files s)) (outfile_of args year month) \<noteq> None"
    and "pauses_ok args"
  shows "loop_body env args (year, month) s =
     (Continue,
      s\<lparr>failures := 0,
        files := snd (run env (cmd_of env args year month) (files s)),
        log := log s @ [LogExporting year month, LogSuccess year month,
                 LogPausing (max (normal_pause_min args)
                   (min (normal_pause_max args) (entropy env (draws s)))) ''normal''],
        slept := slept s @ [max (normal_pause_min args)
                   (min (normal_pause_max args) (entropy env (draws s)))],
        commands := commands s @ [cmd_of env args year month],
        draws := draws s + 1\<rparr>)"
  using assms(2,3)
  by (simp add: loop_body_export [OF assms(1)] success_path_ok [OF assms(4)] exported_state_def)

lemma loop_body_failure:
  assumes "files s (outfile_of args year month) = None"
    and "\<not> (returncode (fst (run env (cmd_of env args year month) (files s))) = 0 \<and>
            snd (run env (cmd_of env args year month) (files s)) (outfile_of args year month) \<noteq> None)"
    and "pauses_ok args"
  shows "loop_body env args (year, month) s =
     (if failures s + 1 \<ge> 5 then Return 3 else Continue,
      s\<lparr>failures := failures s + 1,
        files := append_text (snd (run env (cmd_of env args year month) (files s)))
                   (failure_log args)
                   (failure_line year month
                      (isoformat_seconds (utcnow env (clock_reads s)) @ ''Z'')
                      (Some (returncode (fst (run env (cmd_of env args year month) (files s)))))),
        log := log s @ [LogExporting year month,
                 LogFailure year month
                   (returncode (fst (run env (cmd_of env args year month) (files s))))] @
                 output_warnings (fst (run env (cmd_of env args year month) (files s))) @
                 [LogPausing (max (grumpy_pause_min args)
                    (min (grumpy_pause_max args) (entropy env (draws s))))
                    (''grumpy (consecutive failures: '' @ str_int (failures s + 1) @ '')'')] @
                 (if failures s + 1 \<ge> 5 then [LogTooManyFailures] else []),
        slept := slept s @ [max (grumpy_pause_min args)
                   (min (grumpy_pause_max args) (entropy env (draws s)))],
        commands := commands s @ [cmd_of env args year month],
        draws := draws s + 1,
        clock_reads := clock_reads s + 1\<rparr>)"
  unfolding loop_body_export [OF assms(1)] if_not_P [OF assms(2)] failure_path_ok [OF assms(3)]
  by (simp add: exported_state_def)





subsection \<open>The counter\<close>






lemma export_outcomes_output_warnings [simp]:
  "export_outcomes (output_warnings r) = []"
  by (simp add: output_warnings_def)



subsection \<open>The months visited and exported\<close>

lemma polite_pause_frame:
  "\<exists>l. log (snd (polite_pause env a b reason s)) = log s @ l \<and>
       visited l = [] \<and> exported l = [] \<and>
       commands (snd (polite_pause env a b reason s)) = commands s \<and>
       files (snd (polite_pause env a b reason s)) = files s"
  by (auto simp: polite_pause_def randint_def Let_def split: option.splits)

lemma visited_output_warnings [simp]: "visited (output_warnings r) = []"
  by (simp add: output_warnings_def)

lemma exported_output_warnings [simp]: "exported (output_warnings r) = []"
  by (simp add: output_warnings_def)

lemma success_path_trace:
  "\<exists>l. log (snd (success_path env args year month s)) = log s @ l \<and>
       visited l = [] \<and> exported l = [] \<and>
       commands (snd (success_path env args year month s)) = commands s"
proof -
  let ?s = "s\<lparr>log := log s @ [LogSuccess year month], failures := 0\<rparr>"
  from polite_pause_frame [of env "normal_pause_min args" "normal_pause_max args" "''normal''" ?s]
  obtain l where "log (snd (success_path env args year month s)) = log ?s @ l"
    "visited l = []" "exported l = []"
    "commands (snd (success_path env args year month s)) = commands ?s"
    unfolding success_path_def by blast
  then show ?thesis
    by (intro exI [of _ "LogSuccess year month # l"]) simp
qed

lemma failure_path_trace:
  "\<exists>l. log (snd (failure_path env args year month result s)) = log s @ l \<and>
       visited l = [] \<and> exported l = [] \<and>
       commands (snd (failure_path env args year month result s)) = commands s"
proof -
  let ?s3 = "(record_failure env (failure_log args) year month (Some (returncode result))
                (s\<lparr>failures := failures s + 1,
                   log := log s @ [LogFailure year month (returncode result)]\<rparr>))
             \<lparr>log := (log s @ [LogFailure year month (returncode result)]) @
                      output_warnings result\<rparr>"
  let ?reason = "''grumpy (consecutive failures: '' @ str_int (failures ?s3) @ '')''"
  let ?P = "polite_pause env (grumpy_pause_min args) (grumpy_pause_max args) ?reason ?s3"
  have body: "failure_path env args year month result s =
      (case ?P of
         (Continue, s4) \<Rightarrow>
           if failures s4 \<ge> 5
           then (Return 3, s4\<lparr>log := log s4 @ [LogTooManyFailures]\<rparr>)
           else (Continue, s4)
       | (f, s4) \<Rightarrow> (f, s4))"
    by (simp add: failure_path_def Let_def record_failure_def)
  from polite_pause_frame [of env "grumpy_pause_min args" "grumpy_pause_max args" ?reason ?s3]
  obtain l where l: "log (snd ?P) = log ?s3 @ l"
    "visited l = []" "exported l = []" "commands (snd ?P) = commands ?s3"
    by blast
  obtain f s4 where P: "?P = (f, s4)" by (cases ?P)
  have "\<exists>l'. log (snd (failure_path env args year month result s)) = log s4 @ l' \<and>
      visited l' = [] \<and> exported l' = [] \<and>
      commands (snd (failure_path env args year month result s)) = commands s4"
    unfolding body P by (cases f) auto
  then obtain l' where l': "log (snd (failure_path env args year month result s)) = log s4 @ l'"
    "visited l' = []" "exported l' = []"
    "commands (snd (failure_path env args year month result s)) = commands s4"
    by blast
  from l P have s4: "log s4 = log ?s3 @ l" "commands s4 = commands ?s3" by simp_all
  show ?thesis
    using l(2,3) l'(2,3)
    unfolding l'(1) l'(4) s4
    by (intro exI [of _ "[LogFailure year month (returncode result)] @
           output_warnings result @ l @ l'"])
       (simp add: visited_append exported_append record_failure_def)
qed

lemma loop_body_trace:
  "\<exists>l. log (snd (loop_body env args (year, month) s)) = log s @ l \<and>
       visited l = [(year, month)] \<and>
       exported l = (if files s (outfile_of args year month) = None then [(year, month)] else []) \<and>
       commands (snd (loop_body env args (year, month) s)) =
         commands s @ (if files s (outfile_of args year month) = None
                       then [cmd_of env args year month] else [])"
proof (cases "files s (outfile_of args year month) = None")
  case False
  then show ?thesis by (simp add: loop_body_skip)
next
  case absent: True
  let ?R = "run env (cmd_of env args year month) (files s)"
  let ?e = "exported_state env args year month s"
  have "\<exists>l. log (snd (loop_body env args (year, month) s)) = log ?e @ l \<and>
       visited l = [] \<and> exported l = [] \<and>
       commands (snd (loop_body env args (year, month) s)) = commands ?e"
    unfolding loop_body_export [OF absent]
    using success_path_trace [of env args year month ?e]
      failure_path_trace [of env args year month "fst ?R" ?e]
    by (cases "returncode (fst ?R) = 0 \<and> snd ?R (outfile_of args year month) \<noteq> None") simp_all
  then obtain l where "log (snd (loop_body env args (year, month) s)) = log ?e @ l"
    "visited l = []" "exported l = []"
    "commands (snd (loop_body env args (year, month) s)) = commands ?e"
    by blast
  then show ?thesis
    using absent
    by (intro exI [of _ "LogExporting year month # l"]) (simp add: exported_state_def)
qed

lemma for_months_trace:
  "\<exists>l. log (snd (for_months env args months s)) = log s @ l \<and>
       prefix (visited l) months \<and>
       (fst (for_months env args months s) = Continue \<longrightarrow> visited l = months) \<and>
       subseq (exported l) (visited l) \<and>
       commands (snd (for_months env args months s)) =
         commands s @ map (\<lambda>ym. cmd_of env args (fst ym) (snd ym)) (exported l) \<and>
       List.find (\<lambda>ym. files s (outfile_of args (fst ym) (snd ym)) = None) months =
         (case exported l of [] \<Rightarrow> None | ym # _ \<Rightarrow> Some ym)"
proof (induction months arbitrary: s)
  case Nil
  show ?case by simp
next
  case (Cons ym months)
  obtain year month where ym: "ym = (year, month)" by (cases ym)
  obtain f s' where body: "loop_body env args (year, month) s = (f, s')"
    by (cases "loop_body env args (year, month) s")
  let ?absent = "files s (outfile_of args year month) = None"
  from loop_body_trace [of env args year month s] body
  obtain l1 where l1: "log s' = log s @ l1" "visited l1 = [(year, month)]"
    "exported l1 = (if ?absent then [(year, month)] else [])"
    "commands s' = commands s @ (if ?absent then [cmd_of env args year month] else [])"
    by auto
  show ?case
  proof (cases "f = Continue")
    case False
    then have stop: "for_months env args (ym # months) s = (f, s')"
      using body ym by (cases f) simp_all
    have ?absent
    proof (rule ccontr)
      assume "\<not> ?absent"
      then have "loop_body env args (year, month) s =
          (Continue, s\<lparr>log := log s @ [LogSkipping year month]\<rparr>)"
        by (intro loop_body_skip) simp
      with body False show False by simp
    qed
    then show ?thesis
      unfolding stop using l1 ym False
      by (intro exI [of _ l1]) simp
  next
    case True
    then have step: "for_months env args (ym # months) s = for_months env args months s'"
      using body ym by simp
    from Cons.IH [of s']
    obtain l2 where l2: "log (snd (for_months env args months s')) = log s' @ l2"
      "prefix (visited l2) months"
      "fst (for_months env args months s') = Continue \<longrightarrow> visited l2 = months"
      "subseq (exported l2) (visited l2)"
      "commands (snd (for_months env args months s')) =
         commands s' @ map (\<lambda>ym. cmd_of env args (fst ym) (snd ym)) (exported l2)"
      "List.find (\<lambda>ym. files s' (outfile_of args (fst ym) (snd ym)) = None) months =
         (case exported l2 of [] \<Rightarrow> None | ym # _ \<Rightarrow> Some ym)"
      by blast
    have same_files: "files s' = files s" if "\<not> ?absent"
      using that body by (auto simp: loop_body_skip)
    show ?thesis
      unfolding step
      using l1 l2 ym same_files
      by (intro exI [of _ "l1 @ l2"])
         (auto simp: visited_append exported_append)
  qed
qed

subsection \<open>The months of a range\<close>

lemma month_range_lower:
  "ym \<in> set (month_range y m ey em) \<Longrightarrow> tuple_le (y, m) ym"
proof (induction y m ey em rule: month_range.induct)
  case (1 y m ey em)
  show ?case
  proof (cases "y < ey \<or> (y = ey \<and> m \<le> em)")
    case False
    have "month_range y m ey em = []"
      using False by (subst month_range.simps) simp
    with "1.prems" show ?thesis by simp
  next
    case True
    show ?thesis
    proof (cases "m + 1 > 12")
      case wrap: True
      have range: "month_range y m ey em = (y, m) # month_range (y + 1) 1 ey em"
        using True wrap by (subst month_range.simps) simp
      from "1.prems" have "ym = (y, m) \<or> ym \<in> set (month_range (y + 1) 1 ey em)"
        unfolding range by simp
      with "1.IH"(1) [OF True wrap] show ?thesis
        by (auto simp: tuple_le_def)
    next
      case next_month: False
      have range: "month_range y m ey em = (y, m) # month_range y (m + 1) ey em"
        using True next_month by (subst month_range.simps) simp
      from "1.prems" have "ym = (y, m) \<or> ym \<in> set (month_range y (m + 1) ey em)"
        unfolding range by simp
      with "1.IH"(2) [OF True next_month] show ?thesis
        by (auto simp: tuple_le_def)
    qed
  qed
qed

lemma month_range_sorted: "sorted_wrt tuple_lt (month_range y m ey em)"
proof (induction y m ey em rule: month_range.induct)
  case (1 y m ey em)
  show ?case
  proof (cases "y < ey \<or> (y = ey \<and> m \<le> em)")
    case False
    have "month_range y m ey em = []"
      using False by (subst month_range.simps) simp
    then show ?thesis by simp
  next
    case True
    show ?thesis
    proof (cases "m + 1 > 12")
      case wrap: True
      have range: "month_range y m ey em = (y, m) # month_range (y + 1) 1 ey em"
        using True wrap by (subst month_range.simps) simp
      have "tuple_lt (y, m) ym" if "ym \<in> set (month_range (y + 1) 1 ey em)" for ym
        using month_range_lower [OF that] by (auto simp: tuple_le_def tuple_lt_def)
      with "1.IH"(1) [OF True wrap] show ?thesis
        unfolding range by simp
    next
      case next_month: False
      have range: "month_range y m ey em = (y, m) # month_range y (m + 1) ey em"
        using True next_month by (subst month_range.simps) simp
      have "tuple_lt (y, m) ym" if "ym \<in> set (month_range y (m + 1) ey em)" for ym
        using month_range_lower [OF that] by (auto simp: tuple_le_def tuple_lt_def)
      with "1.IH"(2) [OF True next_month] show ?thesis
        unfolding range by simp
    qed
  qed
qed

lemma month_range_member:
  assumes "1 \<le> m" "m \<le> 12"
  shows "(a, b) \<in> set (month_range y m ey em) \<longleftrightarrow>
     1 \<le> b \<and> b \<le> 12 \<and> tuple_le (y, m) (a, b) \<and> tuple_le (a, b) (ey, em)"
  using assms
proof (induction y m ey em rule: month_range.induct)
  case (1 y m ey em)
  show ?case
  proof (cases "y < ey \<or> (y = ey \<and> m \<le> em)")
    case False
    have "month_range y m ey em = []"
      using False by (subst month_range.simps) simp
    moreover have "\<not> (tuple_le (y, m) (a, b) \<and> tuple_le (a, b) (ey, em))"
      using False unfolding tuple_le_def fst_conv snd_conv by presburger
    ultimately show ?thesis by simp
  next
    case True
    show ?thesis
    proof (cases "m + 1 > 12")
      case wrap: True
      with "1.prems" have m: "m = 12" by simp
      have range: "month_range y m ey em = (y, m) # month_range (y + 1) 1 ey em"
        using True wrap by (subst month_range.simps) simp
      have IH: "(a, b) \<in> set (month_range (y + 1) 1 ey em) \<longleftrightarrow>
          1 \<le> b \<and> b \<le> 12 \<and> tuple_le (y + 1, 1) (a, b) \<and> tuple_le (a, b) (ey, em)"
        by (rule "1.IH"(1) [OF True wrap]) simp_all
      have "(a = y \<and> b = m \<or>
           1 \<le> b \<and> b \<le> 12 \<and> tuple_le (y + 1, 1) (a, b) \<and> tuple_le (a, b) (ey, em)) \<longleftrightarrow>
          (1 \<le> b \<and> b \<le> 12 \<and> tuple_le (y, m) (a, b) \<and> tuple_le (a, b) (ey, em))"
        using True m unfolding tuple_le_def fst_conv snd_conv by presburger
      then show ?thesis unfolding range by (simp add: IH)
    next
      case next_month: False
      have range: "month_range y m ey em = (y, m) # month_range y (m + 1) ey em"
        using True next_month by (subst month_range.simps) simp
      have IH: "(a, b) \<in> set (month_range y (m + 1) ey em) \<longleftrightarrow>
          1 \<le> b \<and> b \<le> 12 \<and> tuple_le (y, m + 1) (a, b) \<and> tuple_le (a, b) (ey, em)"
        using "1.prems" next_month by (intro "1.IH"(2) [OF True next_month]) simp_all
      have "(a = y \<and> b = m \<or>
           1 \<le> b \<and> b \<le> 12 \<and> tuple_le (y, m + 1) (a, b) \<and> tuple_le (a, b) (ey, em)) \<longleftrightarrow>
          (1 \<le> b \<and> b \<le> 12 \<and> tuple_le (y, m) (a, b) \<and> tuple_le (a, b) (ey, em))"
        using True "1.prems" next_month unfolding tuple_le_def fst_conv snd_conv by presburger
      then show ?thesis unfolding range by (simp add: IH)
    qed
  qed
qed

lemma month_range_set:
  assumes "1 \<le> m" "m \<le> 12"
  shows "set (month_range y m ey em) =
     {ym. 1 \<le> snd ym \<and> snd ym \<le> 12 \<and> tuple_le (y, m) ym \<and> tuple_le ym (ey, em)}"
proof (rule set_eqI)
  fix ym :: "int \<times> int"
  obtain a b where ym: "ym = (a, b)" by (cases ym)
  show "ym \<in> set (month_range y m ey em) \<longleftrightarrow>
      ym \<in> {ym. 1 \<le> snd ym \<and> snd ym \<le> 12 \<and> tuple_le (y, m) ym \<and> tuple_le ym (ey, em)}"
    unfolding ym by (simp add: month_range_member [OF assms])
qed

lemma tuple_lt_distinct: "sorted_wrt tuple_lt xs \<Longrightarrow> distinct xs"
  by (induction xs) (auto simp: tuple_lt_def)

subsection \<open>The two runs of ten months\<close>

lemma append_text_other: "q \<noteq> p \<Longrightarrow> append_text fs p t q = fs q"
  by (simp add: append_text_def)

lemmas eval_format = format_0d_def zfill_def str_nat.simps digit_chr_def str_int_def


lemma ten_months_outfiles:
  "outfile_of ten_months 2020 1 = ''dw_exports/dw_export_default_2020-01.xml''"
  "outfile_of ten_months 2020 2 = ''dw_exports/dw_export_default_2020-02.xml''"
  "outfile_of ten_months 2020 3 = ''dw_exports/dw_export_default_2020-03.xml''"
  "outfile_of ten_months 2020 4 = ''dw_exports/dw_export_default_2020-04.xml''"
  "outfile_of ten_months 2020 5 = ''dw_exports/dw_export_default_2020-05.xml''"
  "outfile_of ten_months 2020 6 = ''dw_exports/dw_export_default_2020-06.xml''"
  "outfile_of ten_months 2020 7 = ''dw_exports/dw_export_default_2020-07.xml''"
  "outfile_of ten_months 2020 8 = ''dw_exports/dw_export_default_2020-08.xml''"
  "outfile_of ten_months 2020 9 = ''dw_exports/dw_export_default_2020-09.xml''"
  "outfile_of ten_months 2020 10 = ''dw_exports/dw_export_default_2020-10.xml''"
  by (simp_all add: outfile_of_def path_join_def ten_months_def eval_format)

lemma ten_months_range:
  "month_range 2020 1 2020 10 =
     [(2020, 1), (2020, 2), (2020, 3), (2020, 4), (2020, 5),
      (2020, 6), (2020, 7), (2020, 8), (2020, 9), (2020, 10)]"
  by (simp add: month_range.simps)


lemma ten_months_fields:
  "pauses_ok ten_months" "failure_log ten_months = ''failed_months.csv''"
  "start_year ten_months = 2020" "start_month ten_months = 1"
  "end_year ten_months = 2020" "end_month ten_months = 10"
  by (simp_all add: pauses_ok_def ten_months_def)


lemma output_warnings_simps:
  "output_warnings \<lparr>returncode = c, stdout = [], stderr = []\<rparr> = []"
  "output_warnings \<lparr>returncode = c, stdout = [], stderr = x # xs\<rparr> = [LogStderr (py_strip (x # xs))]"
  by (simp_all add: output_warnings_def)


lemma always_failing_run:
  "run always_failing cmd fs =
     (\<lparr>returncode = 3, stdout = [], stderr = ''not authenticated''\<rparr>, fs)"
  by (simp add: always_failing_def)

lemma always_failing_for:
  "\<exists>s. for_months always_failing ten_months (month_range 2020 1 2020 10) (initial_state Map.empty) =
         (Return 3, s) \<and>
       failures s = 5 \<and>
       visited (log s) = [(2020, 1), (2020, 2), (2020, 3), (2020, 4), (2020, 5)] \<and>
       exported (log s) = [(2020, 1), (2020, 2), (2020, 3), (2020, 4), (2020, 5)] \<and>
       files s (outfile_of ten_months 2020 6) = None"
  by (simp add: ten_months_range loop_body_skip loop_body_success loop_body_failure
      ten_months_outfiles ten_months_fields always_failing_run
      append_text_other initial_state_def output_warnings_simps)

subsection \<open>The circuit breaker\<close>










subsection \<open>Skipping and resuming\<close>

lemma subseq_keeps_distinct: "subseq xs ys \<Longrightarrow> distinct ys \<Longrightarrow> distinct xs"
proof (induction rule: list_emb.induct)
  case (list_emb_Nil ys)
  show ?case by simp
next
  case (list_emb_Cons xs ys y)
  then show ?case by simp
next
  case (list_emb_Cons2 x y xs ys)
  from list_emb_Cons2.hyps(2) have "set xs \<subseteq> set ys"
    by (auto dest: list_emb_set)
  with list_emb_Cons2 show ?case by auto
qed

lemma failure_path_flow: "fst (failure_path env args year month result s) \<noteq> Return 0"
proof -
  let ?s3 = "(record_failure env (failure_log args) year month (Some (returncode result))
                (s\<lparr>failures := failures s + 1,
                   log := log s @ [LogFailure year month (returncode result)]\<rparr>))
             \<lparr>log := (log s @ [LogFailure year month (returncode result)]) @
                      output_warnings result\<rparr>"
  let ?reason = "''grumpy (consecutive failures: '' @ str_int (failures ?s3) @ '')''"
  let ?P = "polite_pause env (grumpy_pause_min args) (grumpy_pause_max args) ?reason ?s3"
  have body: "failure_path env args year month result s =
      (case ?P of
         (Continue, s4) \<Rightarrow>
           if failures s4 \<ge> 5
           then (Return 3, s4\<lparr>log := log s4 @ [LogTooManyFailures]\<rparr>)
           else (Continue, s4)
       | (f, s4) \<Rightarrow> (f, s4))"
    by (simp add: failure_path_def Let_def record_failure_def)
  obtain f s4 where P: "?P = (f, s4)" by (cases ?P)
  with polite_pause_flow [of env "grumpy_pause_min args" "grumpy_pause_max args" ?reason ?s3]
  have "f = Continue \<or> (\<exists>e. f = Raise e)" by simp
  then show ?thesis unfolding body P by auto
qed

lemma loop_body_flow: "fst (loop_body env args (year, month) s) \<noteq> Return 0"
proof (cases "files s (outfile_of args year month) = None")
  case False
  then show ?thesis by (simp add: loop_body_skip)
next
  case True
  let ?e = "exported_state env args year month s"
  from polite_pause_flow [of env "normal_pause_min args" "normal_pause_max args" "''normal''"
      "?e\<lparr>log := log ?e @ [LogSuccess year month], failures := 0\<rparr>"]
  have "fst (success_path env args year month ?e) \<noteq> Return 0"
    by (auto simp: success_path_def)
  then show ?thesis
    unfolding loop_body_export [OF True]
    by (simp add: failure_path_flow)
qed

lemma for_months_flow: "fst (for_months env args months s) \<noteq> Return 0"
proof (induction months arbitrary: s)
  case Nil
  show ?case by simp
next
  case (Cons ym months)
  obtain year month where ym: "ym = (year, month)" by (cases ym)
  obtain f s' where body: "loop_body env args (year, month) s = (f, s')"
    by (cases "loop_body env args (year, month) s")
  with loop_body_flow [of env args year month s] have "f \<noteq> Return 0" by simp
  with Cons.IH [of s'] body ym show ?case by (cases f) simp_all
qed

lemma batch_main_trace:
  "prefix (visited (log (snd (batch_main env args fs))))
     (month_range (start_year args) (start_month args) (end_year args) (end_month args)) \<and>
   (fst (batch_main env args fs) = Return 0 \<longrightarrow>
      visited (log (snd (batch_main env args fs))) =
        month_range (start_year args) (start_month args) (end_year args) (end_month args)) \<and>
   subseq (exported (log (snd (batch_main env args fs))))
     (visited (log (snd (batch_main env args fs)))) \<and>
   commands (snd (batch_main env args fs)) =
     map (\<lambda>ym. cmd_of env args (fst ym) (snd ym)) (exported (log (snd (batch_main env args fs)))) \<and>
   List.find (\<lambda>ym. fs (outfile_of args (fst ym) (snd ym)) = None)
     (month_range (start_year args) (start_month args) (end_year args) (end_month args)) =
     (case exported (log (snd (batch_main env args fs))) of [] \<Rightarrow> None | ym # _ \<Rightarrow> Some ym)"
proof -
  let ?range = "month_range (start_year args) (start_month args) (end_year args) (end_month args)"
  let ?r = "for_months env args ?range (initial_state fs)"
  from for_months_trace [of env args ?range "initial_state fs"]
  obtain l where l: "log (snd ?r) = l" "prefix (visited l) ?range"
    "fst ?r = Continue \<longrightarrow> visited l = ?range"
    "subseq (exported l) (visited l)"
    "commands (snd ?r) = map (\<lambda>ym. cmd_of env args (fst ym) (snd ym)) (exported l)"
    "List.find (\<lambda>ym. fs (outfile_of args (fst ym) (snd ym)) = None) ?range =
       (case exported l of [] \<Rightarrow> None | ym # _ \<Rightarrow> Some ym)"
    by (auto simp: initial_state_def)
  obtain f s where r: "?r = (f, s)" by (cases ?r)
  with for_months_flow [of env args ?range "initial_state fs"] have flow: "f \<noteq> Return 0"
    by simp
  show ?thesis
  proof (cases "f = Continue")
    case True
    with l r show ?thesis
      by (simp add: batch_main_def visited_append exported_append)
  next
    case False
    with l r flow show ?thesis
      by (cases f) (simp_all add: batch_main_def)
  qed
qed

text \<open>
  C9. When the file of the month is there, the pass through the loop only logs that it
  skips the month: the counter, the commands launched, the files (the ledger among them),
  the sleeps, and the readings of the random source and of the clock are as before.
\<close>

theorem skip_existing_month:
  assumes "files s (outfile_of args year month) \<noteq> None"
  shows "loop_body env args (year, month) s =
           (Continue, s\<lparr>log := log s @ [LogSkipping year month]\<rparr>) \<and>
         failures (snd (loop_body env args (year, month) s)) = failures s \<and>
         commands (snd (loop_body env args (year, month) s)) = commands s \<and>
         files (snd (loop_body env args (year, month) s)) = files s \<and>
         slept (snd (loop_body env args (year, month) s)) = slept s \<and>
         draws (snd (loop_body env args (year, month) s)) = draws s \<and>
         clock_reads (snd (loop_body env args (year, month) s)) = clock_reads s"
  by (simp add: loop_body_skip [OF assms])

theorem skip_existing_month_witness:
  "files after_three_failures (outfile_of ten_months 2020 4) \<noteq> None \<and>
   fst (loop_body only_may ten_months (2020, 4) after_three_failures) = Continue \<and>
   failures (snd (loop_body only_may ten_months (2020, 4) after_three_failures)) = 3 \<and>
   commands (snd (loop_body only_may ten_months (2020, 4) after_three_failures)) = [] \<and>
   slept (snd (loop_body only_may ten_months (2020, 4) after_three_failures)) = [30, 30, 30] \<and>
   log (snd (loop_body only_may ten_months (2020, 4) after_three_failures)) = [LogSkipping 2020 4]"
proof -
  have present: "files after_three_failures (outfile_of ten_months 2020 4) \<noteq> None"
    by (simp add: after_three_failures_def ten_months_outfiles)
  from skip_existing_month [OF present, of only_may] present show ?thesis
    by (simp add: after_three_failures_def)
qed

text \<open>
  C7. For a start month between 1 and 12, \<open>month_range\<close> yields exactly
  the months of the closed interval, in strictly ascending order. The months the run
  visits are an initial segment of them, and all of them when the run returns 0. The
  exported months are among the visited ones, none twice, one command each, and the first
  of them is the first month of the range whose file is not there. A month whose file is
  there is skipped: the pass leaves the state as it is but for the log.
\<close>

theorem months_visited_in_order:
  assumes "1 \<le> start_month args" "start_month args \<le> 12"
  shows
    "let range = month_range (start_year args) (start_month args) (end_year args) (end_month args);
         final = batch_main env args fs;
         l = log (snd final)
     in set range =
          {ym. 1 \<le> snd ym \<and> snd ym \<le> 12 \<and>
               tuple_le (start_year args, start_month args) ym \<and>
               tuple_le ym (end_year args, end_month args)} \<and>
        sorted_wrt tuple_lt range \<and>
        prefix (visited l) range \<and>
        (fst final = Return 0 \<longrightarrow> visited l = range) \<and>
        subseq (exported l) (visited l) \<and>
        distinct (exported l) \<and>
        commands (snd final) = map (\<lambda>ym. cmd_of env args (fst ym) (snd ym)) (exported l) \<and>
        List.find (\<lambda>ym. fs (outfile_of args (fst ym) (snd ym)) = None) range =
          (case exported l of [] \<Rightarrow> None | ym # _ \<Rightarrow> Some ym) \<and>
        (\<forall>s year month.
           files s (outfile_of args year month) \<noteq> None \<longrightarrow>
           loop_body env args (year, month) s =
             (Continue, s\<lparr>log := log s @ [LogSkipping year month]\<rparr>))"
proof -
  let ?range = "month_range (start_year args) (start_month args) (end_year args) (end_month args)"
  let ?l = "log (snd (batch_main env args fs))"
  note trace = batch_main_trace [of env args fs]
  have sorted: "sorted_wrt tuple_lt ?range" by (rule month_range_sorted)
  then have "distinct ?range" by (rule tuple_lt_distinct)
  moreover from trace have "subseq (visited ?l) ?range" by blast
  ultimately have "distinct (visited ?l)" by (rule subseq_keeps_distinct [rotated])
  moreover from trace have "subseq (exported ?l) (visited ?l)" by blast
  ultimately have distinct: "distinct (exported ?l)" by (rule subseq_keeps_distinct [rotated])
  have skip: "\<forall>s year month.
      files s (outfile_of args year month) \<noteq> None \<longrightarrow>
      loop_body env args (year, month) s =
        (Continue, s\<lparr>log := log s @ [LogSkipping year month]\<rparr>)"
    by (simp add: loop_body_skip)
  show ?thesis
    unfolding Let_def
    using month_range_set [OF assms] sorted trace distinct skip by blast
qed

lemma always_failing_main:
  "\<exists>s. batch_main always_failing ten_months Map.empty = (Return 3, s) \<and>
       failures s = 5 \<and>
       visited (log s) = [(2020, 1), (2020, 2), (2020, 3), (2020, 4), (2020, 5)] \<and>
       exported (log s) = [(2020, 1), (2020, 2), (2020, 3), (2020, 4), (2020, 5)] \<and>
       files s (outfile_of ten_months 2020 6) = None"
  using always_failing_for by (auto simp: batch_main_def ten_months_fields)

text \<open>
  When every export fails the run ends at the fifth month: June 2020 is in the range
  and has no file, and the run never comes to it.
\<close>

theorem months_visited_in_order_counterexample:
  "(2020, 6) \<in> set (month_range (start_year ten_months) (start_month ten_months)
                      (end_year ten_months) (end_month ten_months)) \<and>
   (2020, 6) \<notin> set (visited (log (snd (batch_main always_failing ten_months Map.empty)))) \<and>
   files (snd (batch_main always_failing ten_months Map.empty)) (outfile_of ten_months 2020 6) = None \<and>
   fst (batch_main always_failing ten_months Map.empty) = Return 3"
  using always_failing_main by (auto simp: ten_months_fields ten_months_range)

theorem months_visited_in_order_witness:
  "1 \<le> start_month ten_months \<and> start_month ten_months \<le> 12 \<and>
   sorted_wrt tuple_lt (month_range 2020 1 2020 10) \<and>
   prefix (visited (log (snd (batch_main always_failing ten_months Map.empty))))
     (month_range 2020 1 2020 10) \<and>
   distinct (exported (log (snd (batch_main always_failing ten_months Map.empty)))) \<and>
   List.find (\<lambda>ym. Map.empty (outfile_of ten_months (fst ym) (snd ym)) = (None :: string option))
     (month_range 2020 1 2020 10) = Some (2020, 1) \<and>
   hd (exported (log (snd (batch_main always_failing ten_months Map.empty)))) = (2020, 1)"
proof -
  have month: "1 \<le> start_month ten_months" "start_month ten_months \<le> 12"
    by (simp_all add: ten_months_fields)
  from months_visited_in_order [OF month, of always_failing Map.empty] always_failing_main month
  show ?thesis
    by (auto simp: Let_def ten_months_fields ten_months_range)
qed


section \<open>Properties of dw-downloader.py\<close>

lemmas eval_lower = py_lower_def py_lower_chr_def char_of_def bit_0

lemma py_in_sublist: "py_in needle hay \<longleftrightarrow> sublist needle hay"
  by (induction hay) (auto simp: sublist_Cons_right)

subsection \<open>The login redirect\<close>

text \<open>
  C4. The response counts as authenticated exactly when its final URL neither contains
  \<open>returnto=/export\<close> nor, in lower case, \<open>login\<close>. The status code plays no part,
  and \<open>main\<close> returns 3 under the stage \<open>get_export_redirect\<close> exactly for the
  responses that do not count as authenticated.
\<close>

theorem is_authenticated_iff:
  "(is_authenticated r \<longleftrightarrow>
      \<not> (sublist ''returnto=/export'' (final_url r) \<or>
         sublist ''login'' (py_lower (final_url r)))) \<and>
   is_authenticated (r\<lparr>status_code := code\<rparr>) = is_authenticated r \<and>
   (main_check_export_page r = Some (''get_export_redirect'', 3) \<longleftrightarrow> \<not> is_authenticated r)"
  by (simp add: is_authenticated_def redirected_to_login_def main_check_export_page_def
      py_in_sublist)

text \<open>
  A final URL with the return-to-export marker and without \<open>login\<close>: not authenticated.
\<close>

theorem is_authenticated_counterexample:
  "\<not> py_in ''login'' (py_lower (final_url returned_to_export)) \<and>
   \<not> is_authenticated returned_to_export"
  by (simp add: returned_to_export_def is_authenticated_def redirected_to_login_def eval_lower)

subsection \<open>Retries\<close>











subsection \<open>The cookie source\<close>

text \<open>
  C5. \<open>main\<close> returns 2 before it builds the session exactly when the month is not
  between 1 and 12 or neither cookie source is given. With a cookie file given, the
  cookies come from the file, whether or not a header is given too; the header is read
  only when no cookie file is given.
\<close>

theorem bootstrap_cookie_source:
  "(main_bootstrap fs args = Exit 2 \<longleftrightarrow>
      \<not> (1 \<le> month_arg args \<and> month_arg args \<le> 12) \<or>
      \<not> truthy (cookie_file_arg args) \<and> \<not> truthy (cookie_header_arg args)) \<and>
   (1 \<le> month_arg args \<and> month_arg args \<le> 12 \<and> truthy (cookie_file_arg args) \<longrightarrow>
      main_bootstrap fs args =
        (case load_netscape_cookie_file fs (text_of (cookie_file_arg args)) ''dreamwidth.org'' of
           Inl e \<Rightarrow> Crash e
         | Inr cs \<Rightarrow> Cookies cs)) \<and>
   (1 \<le> month_arg args \<and> month_arg args \<le> 12 \<and> \<not> truthy (cookie_file_arg args) \<and>
    truthy (cookie_header_arg args) \<longrightarrow>
      main_bootstrap fs args = Cookies (parse_cookie_header (text_of (cookie_header_arg args))))"
  by (auto simp: main_bootstrap_def split: sum.splits)

lemmas eval_lines = py_splitlines_def is_linebreak_def newline_def py_strip_def py_isspace_def
  py_split1_def

text \<open>
  With both sources on the command line \<open>main\<close> does not return 2: it loads the cookie
  file and goes on with its cookies.
\<close>

theorem bootstrap_cookie_source_counterexample:
  "truthy (cookie_file_arg both_sources) \<and> truthy (cookie_header_arg both_sources) \<and>
   main_bootstrap cookie_jar both_sources = Cookies [(''ljmastersession'', ''v2:u1:s2'')]"
  by (simp add: main_bootstrap_def both_sources_def cookie_jar_def truthy_def text_of_def
      load_netscape_cookie_file_def eval_lines)

theorem bootstrap_cookie_source_witness:
  "1 \<le> month_arg header_only \<and> month_arg header_only \<le> 12 \<and>
   \<not> truthy (cookie_file_arg header_only) \<and> truthy (cookie_header_arg header_only) \<and>
   main_bootstrap cookie_jar header_only = Cookies [(''ljsession'', ''abc''), (''ljloggedin'', ''1'')] \<and>
   main_bootstrap cookie_jar header_only \<noteq> Exit 2"
proof -
  have h: "1 \<le> month_arg header_only \<and> month_arg header_only \<le> 12 \<and>
      \<not> truthy (cookie_file_arg header_only) \<and> truthy (cookie_header_arg header_only)"
    by (simp add: header_only_def truthy_def)
  have parsed: "parse_cookie_header (text_of (cookie_header_arg header_only)) =
      [(''ljsession'', ''abc''), (''ljloggedin'', ''1'')]"
    by (simp add: header_only_def text_of_def parse_cookie_header_def eval_lines)
  from bootstrap_cookie_source [of cookie_jar header_only] h parsed show ?thesis
    by simp
qed

subsection \<open>The export form\<close>

lemma scan_forms_find:
  "scan_forms forms = List.find (\<lambda>f. has_year_or_month_select f \<or> mentions_export f) forms"
  by (induction forms) simp_all

lemma find_with_iff:
  "find_with name key v t \<noteq> None \<longleftrightarrow> (\<exists>d \<in> set (find_all name t). get d key = Some v)"
proof -
  have "find_with name key v t \<noteq> None \<longleftrightarrow> find_all_with name key v t \<noteq> []"
    by (simp add: find_with_def split: list.splits)
  also have "\<dots> \<longleftrightarrow> (\<exists>d \<in> set (find_all name t). get d key = Some v)"
    by (simp add: find_all_with_def filter_empty_conv)
  finally show ?thesis .
qed

text \<open>
  C2. \<open>choose_export_form\<close> raises when the page has no form. Otherwise it returns the
  first form, in document order, that has a select named \<open>year\<close> or \<open>month\<close> or whose
  text mentions \<open>export\<close>, whichever of the two it is; when no form does, it returns the
  first form.
\<close>

theorem choose_export_form_first_match:
  "choose_export_form soup =
     (case find_all ''form'' soup of
        [] \<Rightarrow> Inl (RuntimeError ''No <form> found on /export page. Are you logged in?'')
      | first # others \<Rightarrow>
          Inr (case List.find (\<lambda>f. has_year_or_month_select f \<or> mentions_export f)
                      (first # others) of
                 Some f \<Rightarrow> f
               | None \<Rightarrow> first)) \<and>
   (has_year_or_month_select f \<longleftrightarrow>
      (\<exists>sel \<in> set (find_all ''select'' f).
         get sel ''name'' = Some ''year'' \<or> get sel ''name'' = Some ''month'')) \<and>
   (mentions_export f \<longleftrightarrow> sublist ''export'' (py_lower (get_text_strip '' '' f)))"
proof (intro conjI)
  show "choose_export_form soup =
     (case find_all ''form'' soup of
        [] \<Rightarrow> Inl (RuntimeError ''No <form> found on /export page. Are you logged in?'')
      | first # others \<Rightarrow>
          Inr (case List.find (\<lambda>f. has_year_or_month_select f \<or> mentions_export f)
                      (first # others) of
                 Some f \<Rightarrow> f
               | None \<Rightarrow> first))"
    unfolding choose_export_form_def scan_forms_find
    by (simp split: list.splits option.splits)
  show "has_year_or_month_select f \<longleftrightarrow>
      (\<exists>sel \<in> set (find_all ''select'' f).
         get sel ''name'' = Some ''year'' \<or> get sel ''name'' = Some ''month'')"
    unfolding has_year_or_month_select_def find_with_iff by blast
  show "mentions_export f \<longleftrightarrow> sublist ''export'' (py_lower (get_text_strip '' '' f))"
    by (simp add: mentions_export_def py_in_sublist)
qed

lemmas eval_soup = find_all_def find_with_def find_all_with_def get_text_strip_def get_or_def
  py_strip_def py_isspace_def

text \<open>
  On the page with the two forms the search form is chosen, although the form after it
  has the selects \<open>year\<close> and \<open>month\<close>, which the three tiers would choose.
\<close>

theorem choose_export_form_counterexample:
  "find_all ''form'' two_forms_page = [search_form, month_form] \<and>
   has_year_or_month_select month_form \<and>
   \<not> has_year_or_month_select search_form \<and>
   choose_export_form two_forms_page = Inr search_form \<and>
   spec_three_tier_choice (find_all ''form'' two_forms_page) = Some month_form \<and>
   search_form \<noteq> month_form"
proof -
  have forms: "find_all ''form'' two_forms_page = [search_form, month_form]"
    by (simp add: two_forms_page_def search_form_def month_form_def find_all_def)
  have picker: "has_year_or_month_select month_form"
    by (simp add: month_form_def has_year_or_month_select_def eval_soup)
  have search: "\<not> has_year_or_month_select search_form" "mentions_export search_form"
    by (simp_all add: search_form_def has_year_or_month_select_def mentions_export_def
        eval_soup eval_lower)
  have differ: "search_form \<noteq> month_form"
    by (simp add: search_form_def month_form_def)
  from forms picker search differ show ?thesis
    by (simp add: choose_export_form_def spec_three_tier_choice_def)
qed

theorem choose_export_form_first_match_witness:
  "find_all ''form'' picker_page = [plain_form, month_form] \<and>
   \<not> has_year_or_month_select plain_form \<and> \<not> mentions_export plain_form \<and>
   choose_export_form picker_page = Inr month_form \<and>
   (\<exists>sel \<in> set (find_all ''select'' month_form).
      get sel ''name'' = Some ''year'' \<or> get sel ''name'' = Some ''month'')"
proof -
  have forms: "find_all ''form'' picker_page = [plain_form, month_form]"
    by (simp add: picker_page_def plain_form_def month_form_def find_all_def)
  have plain: "\<not> has_year_or_month_select plain_form" "\<not> mentions_export plain_form"
    by (simp_all add: plain_form_def has_year_or_month_select_def mentions_export_def
        eval_soup eval_lower)
  have picker: "has_year_or_month_select month_form"
    by (simp add: month_form_def has_year_or_month_select_def eval_soup)
  note inst = choose_export_form_first_match [of picker_page month_form]
  from inst forms plain picker have "choose_export_form picker_page = Inr month_form"
    by simp
  moreover from inst picker
  have "\<exists>sel \<in> set (find_all ''select'' month_form).
      get sel ''name'' = Some ''year'' \<or> get sel ''name'' = Some ''month''"
    by blast
  ultimately show ?thesis using forms plain by blast
qed

subsection \<open>The names of the year and month fields\<close>

lemma last_default: "last ((if q then n else d) # xs) = last (d # (if q then [n] else []) @ xs)"
  by simp

lemma guess_loop_last:
  "guess_loop sels year_field month_field = Inr (yf, mf) \<Longrightarrow>
   yf = last (year_field # map name_of (filter qualifies_year (filter named sels))) \<and>
   mf = last (month_field # map name_of (filter qualifies_month (filter named sels)))"
proof (induction sels arbitrary: year_field month_field)
  case Nil
  then show ?case by simp
next
  case (Cons sel sels)
  show ?case
  proof (cases "named sel")
    case False
    then have "guess_loop (sel # sels) year_field month_field =
        guess_loop sels year_field month_field"
      by (simp add: named_def split: option.splits)
    with Cons.prems have "guess_loop sels year_field month_field = Inr (yf, mf)" by simp
    from Cons.IH [OF this] False show ?thesis by simp
  next
    case True
    then obtain name where name: "get sel ''name'' = Some name" "name \<noteq> []"
      by (auto simp: named_def split: option.splits)
    then have name_of: "name_of sel = name" by (simp add: name_of_def get_or_def)
    show ?thesis
    proof (cases "monthish_of (option_texts sel)")
      case (Inl e)
      with name Cons.prems show ?thesis
        by (simp add: option_texts_def Let_def)
    next
      case (Inr monthish)
      with name Cons.prems
      have "guess_loop sels
          (if qualifies_year sel then name else year_field)
          (if qualifies_month sel then name else month_field) = Inr (yf, mf)"
        by (simp add: option_texts_def qualifies_year_def qualifies_month_def Let_def)
      from Cons.IH [OF this] True name_of show ?thesis
        by (simp only: filter.simps list.map last_default if_True) simp
    qed
  qed
qed

lemma monthish_sum_returns:
  assumes "\<forall>opt \<in> set opts. py_isdigit opt \<longrightarrow> list_all is_decimal opt"
  shows "\<exists>n. monthish_sum opts = Inr n"
  using assms
proof (induction opts)
  case Nil
  show ?case by simp
next
  case (Cons opt opts)
  then obtain n where n: "monthish_sum opts = Inr n" by auto
  show ?case
  proof (cases "py_isdigit opt")
    case False
    with n show ?thesis by simp
  next
    case True
    with Cons.prems have "opt \<noteq> []" "list_all is_decimal opt"
      by (simp_all add: py_isdigit_def)
    then have "py_int opt = Inr (int (nat_of_digits opt))"
      by (simp add: py_int_decimal unsigned_int_def)
    with True n show ?thesis by simp
  qed
qed

lemma guess_loop_returns:
  assumes "\<forall>sel \<in> set (filter named sels). \<forall>opt \<in> set (option_texts sel).
      py_isdigit opt \<longrightarrow> list_all is_decimal opt"
  shows "\<exists>fields. guess_loop sels year_field month_field = Inr fields"
  using assms
proof (induction sels arbitrary: year_field month_field)
  case Nil
  show ?case by simp
next
  case (Cons sel sels)
  show ?case
  proof (cases "named sel")
    case False
    then have "guess_loop (sel # sels) year_field month_field =
        guess_loop sels year_field month_field"
      by (simp add: named_def split: option.splits)
    with Cons.IH [of year_field month_field] Cons.prems False show ?thesis by simp
  next
    case True
    then obtain name where name: "get sel ''name'' = Some name" "name \<noteq> []"
      by (auto simp: named_def split: option.splits)
    from Cons.prems True
    have "\<forall>opt \<in> set (option_texts sel). py_isdigit opt \<longrightarrow> list_all is_decimal opt"
      by simp
    from monthish_sum_returns [OF this]
    obtain n where "monthish_of (option_texts sel) = Inr n"
      by (cases "option_texts sel = []") (auto simp: monthish_of_def)
    with name Cons.IH Cons.prems True show ?thesis
      by (simp add: option_texts_def Let_def)
  qed
qed

text \<open>
  C10. When \<open>guess_year_month_field_names\<close> returns, the year field is the name of the
  last select, among those that have a name, with at least five options of four digits,
  and \<open>year\<close> if there is none; likewise the month field, for at least five options
  from 1 to 12, with the default \<open>month\<close>. It returns whenever every option made of
  digits is made of decimal digits. A named select that comes last and meets both
  thresholds gives its name to both fields.
\<close>

theorem guess_last_named_select:
  "(guess_year_month_field_names form = Inr (year_field, month_field) \<longrightarrow>
      year_field = last (''year'' # map name_of (filter qualifies_year (named_selects form))) \<and>
      month_field = last (''month'' # map name_of (filter qualifies_month (named_selects form)))) \<and>
   ((\<forall>sel \<in> set (named_selects form). \<forall>opt \<in> set (option_texts sel).
        py_isdigit opt \<longrightarrow> list_all is_decimal opt) \<longrightarrow>
      (\<exists>fields. guess_year_month_field_names form = Inr fields)) \<and>
   (guess_year_month_field_names form = Inr (year_field, month_field) \<and>
    named_selects form = earlier @ [sel] \<and> qualifies_year sel \<and> qualifies_month sel \<longrightarrow>
      year_field = name_of sel \<and> month_field = name_of sel)"
proof (intro conjI impI)
  assume "guess_year_month_field_names form = Inr (year_field, month_field)"
  then show "year_field = last (''year'' # map name_of (filter qualifies_year (named_selects form)))"
    and "month_field = last (''month'' # map name_of (filter qualifies_month (named_selects form)))"
    using guess_loop_last [of "find_all ''select'' form" "''year''" "''month''" year_field month_field]
    by (simp_all add: guess_year_month_field_names_def named_selects_def)
next
  assume "\<forall>sel \<in> set (named_selects form). \<forall>opt \<in> set (option_texts sel).
      py_isdigit opt \<longrightarrow> list_all is_decimal opt"
  then show "\<exists>fields. guess_year_month_field_names form = Inr fields"
    unfolding guess_year_month_field_names_def named_selects_def
    by (rule guess_loop_returns)
next
  assume both: "guess_year_month_field_names form = Inr (year_field, month_field) \<and>
      named_selects form = earlier @ [sel] \<and> qualifies_year sel \<and> qualifies_month sel"
  then have "guess_loop (find_all ''select'' form) ''year'' ''month'' = Inr (year_field, month_field)"
    by (simp add: guess_year_month_field_names_def)
  from guess_loop_last [OF this]
  have "year_field = last (''year'' # map name_of (filter qualifies_year (named_selects form)))"
    and "month_field = last (''month'' # map name_of (filter qualifies_month (named_selects form)))"
    by (simp_all add: named_selects_def)
  with both show "year_field = name_of sel" and "month_field = name_of sel"
    by simp_all
qed

lemmas eval_guess = guess_year_month_field_names_def yearish_of_def monthish_of_def
  py_isdigit_def isdigit_chr_def is_decimal_def py_int_def unsigned_int_def nat_of_digits_def
  digit_val_def options_for_def named_selects_def named_def name_of_def option_texts_def
  qualifies_year_def qualifies_month_def

text \<open>
  The last select with five options of four digits has no name: the year field is the
  name of the select before it.
\<close>

theorem guess_last_named_select_counterexample:
  "find_all ''select'' unnamed_last =
     [Tag ''select'' [(''name'', ''from_year'')]
        (options_for [''2001'', ''2002'', ''2003'', ''2004'', ''2005'']),
      unnamed_menu] \<and>
   get unnamed_menu ''name'' = None \<and>
   yearish_of (map (get_text_strip []) (find_all ''option'' unnamed_menu)) = 5 \<and>
   guess_year_month_field_names unnamed_last = Inr (''from_year'', ''month'')"
  by (simp add: unnamed_last_def unnamed_menu_def eval_guess eval_soup)

theorem guess_last_named_select_witness:
  "guess_year_month_field_names year_menus = Inr (''to_year'', ''mon'') \<and>
   ''to_year'' = last (''year'' # map name_of (filter qualifies_year (named_selects year_menus))) \<and>
   ''mon'' = last (''month'' # map name_of (filter qualifies_month (named_selects year_menus))) \<and>
   map name_of (filter qualifies_year (named_selects year_menus)) = [''from_year'', ''to_year''] \<and>
   guess_year_month_field_names (Tag ''form'' [] [padded_menu]) = Inr (''when'', ''when'') \<and>
   named_selects (Tag ''form'' [] [padded_menu]) = [] @ [padded_menu] \<and>
   qualifies_year padded_menu \<and> qualifies_month padded_menu"
proof -
  have menus: "guess_year_month_field_names year_menus = Inr (''to_year'', ''mon'')"
    by (simp add: year_menus_def eval_guess eval_soup)
  have years: "map name_of (filter qualifies_year (named_selects year_menus)) =
      [''from_year'', ''to_year'']"
    by (simp add: year_menus_def eval_guess eval_soup)
  have padded: "guess_year_month_field_names (Tag ''form'' [] [padded_menu]) = Inr (''when'', ''when'')"
    "named_selects (Tag ''form'' [] [padded_menu]) = [] @ [padded_menu]"
    "qualifies_year padded_menu" "qualifies_month padded_menu"
    by (simp_all add: padded_menu_def eval_guess eval_soup)
  from guess_last_named_select [of year_menus "''to_year''" "''mon''"] menus
  have "''to_year'' = last (''year'' # map name_of (filter qualifies_year (named_selects year_menus)))"
    and "''mon'' = last (''month'' # map name_of (filter qualifies_month (named_selects year_menus)))"
    by blast+
  with menus years padded show ?thesis by blast
qed

subsection \<open>The output format\<close>

lemma find_filter:
  "List.find P xs = (case filter P xs of [] \<Rightarrow> None | x # _ \<Rightarrow> Some x)"
  by (induction xs) simp_all

lemma scan_selects_first:
  "scan_selects sels =
     (case concat (map (\<lambda>sel. map (\<lambda>vl. (name_of sel, vl))
                                (filter xml_like (map option_pair (find_all ''option'' sel))))
                       (filter named sels)) of
        [] \<Rightarrow> None
      | (name, v, label) # _ \<Rightarrow> Some (name, if v \<noteq> [] then v else label))"
proof (induction sels)
  case Nil
  show ?case by simp
next
  case (Cons sel sels)
  show ?case
  proof (cases "named sel")
    case False
    then have "scan_selects (sel # sels) = scan_selects sels"
      by (simp add: named_def split: option.splits)
    with Cons.IH False show ?thesis by simp
  next
    case True
    then obtain name where name: "get sel ''name'' = Some name" "name \<noteq> []"
      by (auto simp: named_def split: option.splits)
    then have name_of: "name_of sel = name" by (simp add: name_of_def get_or_def)
    show ?thesis
    proof (cases "filter xml_like (map option_pair (find_all ''option'' sel))")
      case Nil
      with name Cons.IH True show ?thesis
        by (simp add: find_filter)
    next
      case (Cons vl rest)
      obtain v label where vl: "vl = (v, label)" by (cases vl)
      from Cons vl name True name_of show ?thesis
        by (simp add: find_filter)
    qed
  qed
qed

lemma group_pairs_setdefault:
  "group_pairs (setdefault_append groups name v) = insert (name, v) (group_pairs groups)"
  by (induction groups name v rule: setdefault_append.induct)
     (auto simp: group_pairs_def)

lemma group_pairs_foldl:
  "group_pairs
     (foldl (\<lambda>groups inp.
               (case get inp ''name'' of
                  None \<Rightarrow> groups
                | Some name \<Rightarrow>
                    if name = [] then groups
                    else setdefault_append groups name (get_or inp ''value'' [])))
        groups inputs) =
   group_pairs groups \<union> (\<lambda>inp. (name_of inp, get_or inp ''value'' [])) ` set (filter named inputs)"
proof (induction inputs arbitrary: groups)
  case Nil
  show ?case by simp
next
  case (Cons inp inputs)
  show ?case
  proof (cases "named inp")
    case False
    then show ?thesis
      by (simp add: Cons.IH named_def split: option.splits)
  next
    case True
    then obtain name where name: "get inp ''name'' = Some name" "name \<noteq> []"
      by (auto simp: named_def split: option.splits)
    then have "name_of inp = name" by (simp add: name_of_def get_or_def)
    with name True show ?thesis
      by (simp add: Cons.IH group_pairs_setdefault)
  qed
qed

lemma radio_group_pairs:
  "group_pairs (radio_groups_of form) =
     (\<lambda>inp. (name_of inp, get_or inp ''value'' [])) ` set (named_radios form)"
  unfolding radio_groups_of_def named_radios_def group_pairs_foldl
  by (simp add: group_pairs_def)

lemma find_Some_member: "List.find P xs = Some x \<Longrightarrow> x \<in> set xs \<and> P x"
  by (induction xs) (auto split: if_splits)

lemma scan_radios_None:
  "scan_radios groups = None \<longleftrightarrow>
     (\<forall>(name, v) \<in> group_pairs groups. \<not> py_in ''xml'' (py_lower v))"
proof (induction groups rule: scan_radios.induct)
  case 1
  show ?case by (simp add: group_pairs_def)
next
  case (2 name vs groups)
  have pairs: "group_pairs ((name, vs) # groups) = (\<lambda>v. (name, v)) ` set vs \<union> group_pairs groups"
    by (auto simp: group_pairs_def)
  show ?case
  proof (cases "List.find (\<lambda>v. py_in ''xml'' (py_lower v)) vs")
    case None
    then have "\<forall>v \<in> set vs. \<not> py_in ''xml'' (py_lower v)"
      by (simp add: find_None_iff)
    with None "2.IH" [OF None] show ?thesis
      unfolding pairs by auto
  next
    case (Some v)
    from find_Some_member [OF Some] Some show ?thesis
      unfolding pairs by auto
  qed
qed

lemma scan_radios_Some:
  "scan_radios groups = Some (name, v) \<Longrightarrow>
     (name, v) \<in> group_pairs groups \<and> py_in ''xml'' (py_lower v)"
proof (induction groups rule: scan_radios.induct)
  case 1
  then show ?case by simp
next
  case (2 name' vs groups)
  have pairs: "group_pairs ((name', vs) # groups) = (\<lambda>v. (name', v)) ` set vs \<union> group_pairs groups"
    by (auto simp: group_pairs_def)
  show ?case
  proof (cases "List.find (\<lambda>v. py_in ''xml'' (py_lower v)) vs")
    case None
    with "2.prems" have "scan_radios groups = Some (name, v)" by simp
    from "2.IH" [OF None this] show ?thesis unfolding pairs by simp
  next
    case (Some v')
    with "2.prems" have "name = name'" "v = v'" by simp_all
    with find_Some_member [OF Some] show ?thesis unfolding pairs by simp
  qed
qed

text \<open>
  C6. \<open>force_output_format_xml\<close> takes the first option that looks like XML in the
  selects that have a name, in document order, sets the payload entry of that select to
  the option's value, or to its label when the value is empty, and returns \<open>True\<close>.
  When no named select has such an option it turns to the groups of the named radio
  inputs: it sets the entry of a group to a value of the group that contains \<open>xml\<close>
  and returns \<open>True\<close>; when no named radio input has such a value either, it
  returns \<open>False\<close> and the payload as it was. On the select with the options
  \<open>("1", "HTML")\<close> and \<open>("2", "XML")\<close> it sets the field to \<open>"2"\<close>.
\<close>

theorem force_output_format_xml_first_match:
  "force_output_format_xml form payload =
     (case xml_options form of
        (name, v, label) # _ \<Rightarrow> (True, AList.update name (if v \<noteq> [] then v else label) payload)
      | [] \<Rightarrow>
          (case scan_radios (radio_groups_of form) of
             Some (name, v) \<Rightarrow> (True, AList.update name v payload)
           | None \<Rightarrow> (False, payload))) \<and>
   (scan_radios (radio_groups_of form) = None \<longleftrightarrow>
      list_all (\<lambda>inp. \<not> sublist ''xml'' (py_lower (get_or inp ''value'' []))) (named_radios form)) \<and>
   (scan_radios (radio_groups_of form) = Some (name, v) \<longrightarrow>
      (\<exists>inp \<in> set (named_radios form).
         name_of inp = name \<and> get_or inp ''value'' [] = v \<and> sublist ''xml'' (py_lower v))) \<and>
   force_output_format_xml format_form payload = (True, AList.update ''format'' ''2'' payload)"
proof (intro conjI impI)
  show "force_output_format_xml form payload =
     (case xml_options form of
        (name, v, label) # _ \<Rightarrow> (True, AList.update name (if v \<noteq> [] then v else label) payload)
      | [] \<Rightarrow>
          (case scan_radios (radio_groups_of form) of
             Some (name, v) \<Rightarrow> (True, AList.update name v payload)
           | None \<Rightarrow> (False, payload)))"
  proof -
    have selects: "scan_selects (find_all ''select'' form) =
        (case xml_options form of
           [] \<Rightarrow> None
         | (name, v, label) # _ \<Rightarrow> Some (name, if v \<noteq> [] then v else label))"
      by (simp add: scan_selects_first xml_options_def named_selects_def)
    show ?thesis
      unfolding force_output_format_xml_def selects
      by (cases "xml_options form") auto
  qed
  show "scan_radios (radio_groups_of form) = None \<longleftrightarrow>
      list_all (\<lambda>inp. \<not> sublist ''xml'' (py_lower (get_or inp ''value'' []))) (named_radios form)"
    unfolding scan_radios_None radio_group_pairs
    by (simp add: list_all_iff py_in_sublist)
  show "\<exists>inp \<in> set (named_radios form).
      name_of inp = name \<and> get_or inp ''value'' [] = v \<and> sublist ''xml'' (py_lower v)"
    if "scan_radios (radio_groups_of form) = Some (name, v)"
    using scan_radios_Some [OF that] unfolding radio_group_pairs
    by (auto simp: py_in_sublist)
  show "force_output_format_xml format_form payload = (True, AList.update ''format'' ''2'' payload)"
    by (simp add: force_output_format_xml_def format_form_def format_menu_def option_pair_def
        xml_like_def eval_soup eval_lower)
qed

text \<open>
  The first option that looks like XML stands in a select without a name: the function
  goes on to the next select and sets its field; when the nameless select is the only
  one, the function returns \<open>False\<close> and leaves the payload as it was.
\<close>

theorem force_output_format_xml_counterexample:
  "find_all ''select'' unnamed_format_form =
     [Tag ''select'' [(''id'', ''preview'')]
        [Tag ''option'' [(''value'', ''xml'')] [NavigableString ''XML preview'']],
      format_menu] \<and>
   xml_like (option_pair (Tag ''option'' [(''value'', ''xml'')] [NavigableString ''XML preview''])) \<and>
   force_output_format_xml unnamed_format_form [(''year'', ''2020'')] =
     (True, [(''year'', ''2020''), (''format'', ''2'')]) \<and>
   force_output_format_xml
     (Tag ''form'' [] [Tag ''select'' [(''id'', ''preview'')]
        [Tag ''option'' [(''value'', ''xml'')] [NavigableString ''XML preview'']]])
     [(''year'', ''2020'')] = (False, [(''year'', ''2020'')])"
  by (simp add: force_output_format_xml_def unnamed_format_form_def format_menu_def
      option_pair_def xml_like_def radio_groups_of_def eval_soup eval_lower)

theorem force_output_format_xml_witness:
  "scan_radios (radio_groups_of radio_form) = Some (''output'', ''xml'') \<and>
   xml_options radio_form = [] \<and>
   force_output_format_xml radio_form [(''output'', ''html'')] = (True, [(''output'', ''xml'')]) \<and>
   (\<exists>inp \<in> set (named_radios radio_form).
      name_of inp = ''output'' \<and> get_or inp ''value'' [] = ''xml'' \<and>
      sublist ''xml'' (py_lower ''xml''))"
proof -
  have radios: "scan_radios (radio_groups_of radio_form) = Some (''output'', ''xml'')"
    by (simp add: radio_form_def radio_groups_of_def eval_soup eval_lower)
  have selects: "xml_options radio_form = []"
    by (simp add: radio_form_def xml_options_def named_selects_def eval_soup)
  note inst = force_output_format_xml_first_match [of radio_form "[(''output'', ''html'')]"
      "''output''" "''xml''"]
  from inst radios selects
  have "force_output_format_xml radio_form [(''output'', ''html'')] = (True, [(''output'', ''xml'')])"
    by simp
  moreover from inst radios
  have "\<exists>inp \<in> set (named_radios radio_form).
      name_of inp = ''output'' \<and> get_or inp ''value'' [] = ''xml'' \<and>
      sublist ''xml'' (py_lower ''xml'')"
    by blast
  ultimately show ?thesis using radios selects by blast
qed

end
